theory Spec2Isabelle
  imports Main
begin

section \<open>Python string primitives used by dockpanel.py\<close>

text \<open>
  Strings are lists of characters; a character stands for a code point below 256.
  The text of a file is the text as it is stored; reading it in text mode translates the
  line ends (see \<open>universal_newlines\<close>).
\<close>

definition nl :: char where
  "nl = CHR 0x0A"

definition cr :: char where
  "cr = CHR 0x0D"

definition sq :: char where
  "sq = CHR 0x27"

definition dq :: char where
  "dq = CHR 0x22"

definition bs :: char where
  "bs = CHR 0x5C"

text \<open>\<^verbatim>\<open>str.isspace\<close> on one character (code points below 256).\<close>

definition is_space :: "char \<Rightarrow> bool" where
  "is_space c =
     (c \<in> set [CHR 0x09, CHR 0x0A, CHR 0x0B, CHR 0x0C, CHR 0x0D, CHR 0x1C, CHR 0x1D,
                CHR 0x1E, CHR 0x1F, CHR 0x20, CHR 0x85, CHR 0xA0])"

text \<open>\<^verbatim>\<open>s.strip()\<close>\<close>

definition strip :: "string \<Rightarrow> string" where
  "strip s = rev (dropWhile is_space (rev (dropWhile is_space s)))"

text \<open>\<^verbatim>\<open>s.startswith(p)\<close> and \<^verbatim>\<open>s.endswith(p)\<close>\<close>

definition startswith :: "string \<Rightarrow> string \<Rightarrow> bool" where
  "startswith s p = (take (length p) s = p)"

definition endswith :: "string \<Rightarrow> string \<Rightarrow> bool" where
  "endswith s p = (length p \<le> length s \<and> drop (length s - length p) s = p)"

text \<open>\<^verbatim>\<open>p in s\<close> on strings: \<open>p\<close> occurs in \<open>s\<close> as a contiguous substring.\<close>

fun str_in :: "string \<Rightarrow> string \<Rightarrow> bool" where
  "str_in p [] = (p = [])"
| "str_in p (c # cs) = (startswith (c # cs) p \<or> str_in p cs)"

text \<open>\<^verbatim>\<open>s.split(c)\<close> for a one-character separator: never returns the empty list.\<close>

fun split_on :: "char \<Rightarrow> string \<Rightarrow> string list" where
  "split_on c [] = [[]]"
| "split_on c (x # xs) =
     (if x = c then [] # split_on c xs
      else (case split_on c xs of
              [] \<Rightarrow> [[x]]
            | w # ws \<Rightarrow> (x # w) # ws))"

text \<open>\<^verbatim>\<open>s.split(c, 1)\<close>: split at the first occurrence only.\<close>

definition split_once :: "char \<Rightarrow> string \<Rightarrow> string list" where
  "split_once c s =
     (if c \<in> set s
      then [takeWhile (\<lambda>x. x \<noteq> c) s, tl (dropWhile (\<lambda>x. x \<noteq> c) s)]
      else [s])"

text \<open>\<^verbatim>\<open>s.split()\<close>: the maximal runs of characters that are not white space.\<close>

fun split_ws_acc :: "string \<Rightarrow> string \<Rightarrow> string list" where
  "split_ws_acc w [] = (if w = [] then [] else [rev w])"
| "split_ws_acc w (c # cs) =
     (if is_space c
      then (if w = [] then split_ws_acc [] cs else rev w # split_ws_acc [] cs)
      else split_ws_acc (c # w) cs)"

definition split_ws :: "string \<Rightarrow> string list" where
  "split_ws s = split_ws_acc [] s"

text \<open>\<^verbatim>\<open>sep.join(parts)\<close>\<close>

fun join :: "string \<Rightarrow> string list \<Rightarrow> string" where
  "join sep [] = []"
| "join sep [p] = p"
| "join sep (p # q # ps) = p @ sep @ join sep (q # ps)"

text \<open>\<^verbatim>\<open>s.replace(old, new)\<close> for a non-empty \<open>old\<close>, scanning left to right.\<close>

function replace :: "string \<Rightarrow> string \<Rightarrow> string \<Rightarrow> string" where
  "replace old new s =
     (if old = [] then s
      else (case s of
              [] \<Rightarrow> []
            | c # cs \<Rightarrow>
                (if startswith s old then new @ replace old new (drop (length old) s)
                 else c # replace old new cs)))"
  by pat_completeness auto
termination
  by (relation "measure (\<lambda>(old, new, s). length s)") auto

declare replace.simps [simp del]

text \<open>
  What a file opened with \<^verbatim>\<open>open(path, 'r')\<close> delivers: in text mode a carriage
  return followed by a line feed is read as one line feed, and a carriage return alone is
  read as a line feed.
\<close>

fun universal_newlines :: "string \<Rightarrow> string" where
  "universal_newlines [] = []"
| "universal_newlines [c] = (if c = cr then [nl] else [c])"
| "universal_newlines (c # d # cs) =
     (if c = cr then
        (if d = nl then nl # universal_newlines cs else nl # universal_newlines (d # cs))
      else c # universal_newlines (d # cs))"

text \<open>
  The lines of a text that holds line feeds only: every line keeps its line feed; a last
  line may lack one.
\<close>

fun readlines_acc :: "string \<Rightarrow> string \<Rightarrow> string list" where
  "readlines_acc w [] = (if w = [] then [] else [rev w])"
| "readlines_acc w (c # cs) =
     (if c = nl then rev (c # w) # readlines_acc [] cs
      else readlines_acc (c # w) cs)"

text \<open>
  \<^verbatim>\<open>f.readlines()\<close>, and the lines \<^verbatim>\<open>for line in f\<close> runs through, for a file
  opened in text mode whose stored text is \<open>s\<close>.
\<close>

definition readlines :: "string \<Rightarrow> string list" where
  "readlines s = readlines_acc [] (universal_newlines s)"

text \<open>Decimal rendering, \<^verbatim>\<open>str(n)\<close> for a natural number and for an integer.\<close>

definition digit_char :: "nat \<Rightarrow> char" where
  "digit_char d = ''0123456789'' ! d"

function str_nat :: "nat \<Rightarrow> string" where
  "str_nat n = (if n < 10 then [digit_char n] else str_nat (n div 10) @ [digit_char (n mod 10)])"
  by pat_completeness auto
termination
  by (relation "measure id") auto

declare str_nat.simps [simp del]

definition str_int :: "int \<Rightarrow> string" where
  "str_int i = (if i < 0 then CHR ''-'' # str_nat (nat (- i)) else str_nat (nat i))"

text \<open>
  \<^verbatim>\<open>int(s)\<close> on text. The white space \<^verbatim>\<open>int\<close> ignores around the literal is
  narrower than the one \<^verbatim>\<open>strip\<close> removes: the code points 0x1C to 0x1F are not
  part of it. One sign is allowed, single underscores may separate digits, and a literal
  of more than \<open>max_str_digits\<close> digits is refused (the default limit of CPython).
  \<open>None\<close> stands for \<^verbatim>\<open>ValueError\<close>.
\<close>

definition int_space :: "char \<Rightarrow> bool" where
  "int_space c =
     (c \<in> set [CHR 0x09, CHR 0x0A, CHR 0x0B, CHR 0x0C, CHR 0x0D, CHR 0x20, CHR 0x85, CHR 0xA0])"

definition int_strip :: "string \<Rightarrow> string" where
  "int_strip s = rev (dropWhile int_space (rev (dropWhile int_space s)))"

definition max_str_digits :: nat where
  "max_str_digits = 4300"

definition is_digit :: "char \<Rightarrow> bool" where
  "is_digit c = (c \<in> set ''0123456789'')"

definition digit_val :: "char \<Rightarrow> nat" where
  "digit_val c = length (takeWhile (\<lambda>d. d \<noteq> c) ''0123456789'')"

text \<open>
  \<open>digits_acc started prev_us acc s\<close>: \<open>started\<close> says a digit has been read,
  \<open>prev_us\<close> that the previous character was an underscore.
\<close>

fun digits_acc :: "bool \<Rightarrow> bool \<Rightarrow> nat \<Rightarrow> string \<Rightarrow> nat option" where
  "digits_acc started prev_us acc [] = (if started \<and> \<not> prev_us then Some acc else None)"
| "digits_acc started prev_us acc (c # cs) =
     (if is_digit c then digits_acc True False (10 * acc + digit_val c) cs
      else if c = CHR ''_'' \<and> started \<and> \<not> prev_us then digits_acc True True acc cs
      else None)"

text \<open>The digits after the sign: their value, unless there are too many of them.\<close>

definition int_digits :: "string \<Rightarrow> nat option" where
  "int_digits ds =
     (if length (filter is_digit ds) \<le> max_str_digits then digits_acc False False 0 ds
      else None)"

definition py_int :: "string \<Rightarrow> int option" where
  "py_int s =
     (case int_strip s of
        [] \<Rightarrow> None
      | c # cs \<Rightarrow>
          (if c = CHR ''-'' then map_option (\<lambda>n. - int n) (int_digits cs)
           else if c = CHR ''+'' then map_option int (int_digits cs)
           else map_option int (int_digits (c # cs))))"

section \<open>The host and the execution gateway\<close>

text \<open>
  One call of \<^verbatim>\<open>subprocess.run(cmd, shell=shell, text=True, capture_output=True,
  timeout=timeout)\<close>: the command text, whether it goes through the shell, the timeout.
\<close>

record spawn_call =
  sc_cmd :: string
  sc_shell :: bool
  sc_timeout :: int

text \<open>
  What \<^verbatim>\<open>subprocess.run\<close> does: it returns a completed process (stdout, stderr, return
  code), raises \<^verbatim>\<open>subprocess.TimeoutExpired\<close>, or raises another \<^verbatim>\<open>Exception\<close> whose
  \<^verbatim>\<open>str\<close> is the given message (\<^verbatim>\<open>OSError\<close>, \<^verbatim>\<open>ValueError\<close>, a decoding error).
  The two texts of a completed process are the values of its attributes \<^verbatim>\<open>stdout\<close> and
  \<^verbatim>\<open>stderr\<close>, that is, the output as text mode delivers it.
\<close>

datatype spawn_outcome =
    Completed string string int
  | TimeoutExpired
  | OtherException string

text \<open>
  The part of the host the program reads: file contents (\<open>None\<close>: no such file),
  directory listings (\<open>None\<close>: no such directory), the result of \<^verbatim>\<open>glob.glob\<close> on a
  pattern, the result of \<^verbatim>\<open>shutil.which\<close> on a program name; then the command lines of
  the processes that spawn calls started and that are still running, and the log of the
  spawn calls made so far, oldest first. A path exists when it is a file or a directory;
  \<^verbatim>\<open>open\<close> on a path that is not a file raises \<^verbatim>\<open>OSError\<close>, and every file of
  the model can be opened and read as text.
\<close>

record host =
  files :: "string \<Rightarrow> string option"
  listdir :: "string \<Rightarrow> string list option"
  glob :: "string \<Rightarrow> string list"
  which :: "string \<Rightarrow> string option"
  procs :: "string list"
  spawned :: "spawn_call list"

text \<open>
  The operating system: given a spawn call and the host, the outcome of the call and the
  host after it. It is a parameter of every operation that runs a command.
\<close>

type_synonym os = "spawn_call \<Rightarrow> host \<Rightarrow> spawn_outcome \<times> host"

definition path_exists :: "host \<Rightarrow> string \<Rightarrow> bool" where
  "path_exists h p = (files h p \<noteq> None \<or> listdir h p \<noteq> None)"

text \<open>\<^verbatim>\<open>subprocess.run\<close>: the call is logged, then the operating system answers.\<close>

definition subprocess_run :: "os \<Rightarrow> spawn_call \<Rightarrow> host \<Rightarrow> spawn_outcome \<times> host" where
  "subprocess_run opsys call h =
     (let (outcome, h') = opsys call h
      in (outcome, h'\<lparr>spawned := spawned h @ [call]\<rparr>))"

text \<open>
  \<^verbatim>\<open>run_command(cmd, shell=True, timeout=30)\<close>: both \<^verbatim>\<open>except\<close> clauses return a
  triple, so the function returns a triple on every path.
\<close>

definition run_command_full ::
  "os \<Rightarrow> string \<Rightarrow> bool \<Rightarrow> int \<Rightarrow> host \<Rightarrow> (string \<times> string \<times> int) \<times> host" where
  "run_command_full opsys cmd shell timeout h =
     (let (outcome, h') =
            subprocess_run opsys \<lparr>sc_cmd = cmd, sc_shell = shell, sc_timeout = timeout\<rparr> h
      in (case outcome of
            Completed out err rc \<Rightarrow> ((strip out, strip err, rc), h')
          | TimeoutExpired \<Rightarrow> (([], ''Command timed out'', 1), h')
          | OtherException msg \<Rightarrow> (([], msg, 1), h')))"

text \<open>\<^verbatim>\<open>run_command(cmd)\<close> with the default arguments, as every caller writes it.\<close>

definition run_command :: "os \<Rightarrow> string \<Rightarrow> host \<Rightarrow> (string \<times> string \<times> int) \<times> host" where
  "run_command opsys cmd h = run_command_full opsys cmd True 30 h"


text \<open>
  The command text \<^verbatim>\<open>run_sudo_command\<close> builds: \<^verbatim>\<open>f"echo '{password}' | sudo -S {cmd}"\<close>
  when a password is given, \<^verbatim>\<open>f"sudo {cmd}"\<close> otherwise.
\<close>

definition sudo_cmd :: "string \<Rightarrow> string option \<Rightarrow> string" where
  "sudo_cmd cmd password =
     (case password of
        None \<Rightarrow> ''sudo '' @ cmd
      | Some pw \<Rightarrow>
          (if pw \<noteq> [] then ''echo '' @ [sq] @ pw @ [sq] @ '' | sudo -S '' @ cmd
           else ''sudo '' @ cmd))"

definition run_sudo_command ::
  "os \<Rightarrow> string \<Rightarrow> string option \<Rightarrow> host \<Rightarrow> (string \<times> string \<times> int) \<times> host" where
  "run_sudo_command opsys cmd password h = run_command opsys (sudo_cmd cmd password) h"

text \<open>The spawn calls made between two hosts of one run.\<close>

definition new_calls :: "host \<Rightarrow> host \<Rightarrow> spawn_call list" where
  "new_calls h h' = drop (length (spawned h)) (spawned h')"

text \<open>
  Between two hosts of one run, calls were only added to the log, and each of them goes
  through the shell.
\<close>

definition only_shell_calls :: "host \<Rightarrow> host \<Rightarrow> bool" where
  "only_shell_calls h h' =
     (take (length (spawned h)) (spawned h') = spawned h \<and> list_all sc_shell (new_calls h h'))"

text \<open>A host with no files, and an operating system that answers every call alike.\<close>

definition host_empty :: host where
  "host_empty =
     \<lparr>files = (\<lambda>p. None), listdir = (\<lambda>p. None), glob = (\<lambda>p. []), which = (\<lambda>p. None),
      procs = [], spawned = []\<rparr>"

definition os_const :: "spawn_outcome \<Rightarrow> os" where
  "os_const r call h = (r, h)"

text \<open>The spawn call \<^verbatim>\<open>run_sudo_command\<close> makes for a command and a password.\<close>

definition sudo_call :: "string \<Rightarrow> string option \<Rightarrow> spawn_call" where
  "sudo_call cmd password = \<lparr>sc_cmd = sudo_cmd cmd password, sc_shell = True, sc_timeout = 30\<rparr>"

text \<open>
  The host after one spawn call: as the operating system left it, with the call added to
  the log.
\<close>

definition host_after :: "os \<Rightarrow> spawn_call \<Rightarrow> host \<Rightarrow> host" where
  "host_after opsys call h = (snd (opsys call h))\<lparr>spawned := spawned h @ [call]\<rparr>"

text \<open>
  The return code and the error text that \<^verbatim>\<open>run_command\<close> reports for what
  \<^verbatim>\<open>subprocess.run\<close> did.
\<close>

definition reported_code :: "spawn_outcome \<Rightarrow> int" where
  "reported_code r =
     (case r of
        Completed out err rc \<Rightarrow> rc
      | TimeoutExpired \<Rightarrow> 1
      | OtherException msg \<Rightarrow> 1)"

definition reported_err :: "spawn_outcome \<Rightarrow> string" where
  "reported_err r =
     (case r of
        Completed out err rc \<Rightarrow> strip err
      | TimeoutExpired \<Rightarrow> ''Command timed out''
      | OtherException msg \<Rightarrow> msg)"

text \<open>
  A run of spawn calls made one after the other from the host \<open>h\<close>: the host after the
  first \<open>i\<close> calls, and what the operating system answers to call number \<open>i\<close> (counted
  from 0) when it is made there.
\<close>

definition host_at :: "os \<Rightarrow> spawn_call list \<Rightarrow> host \<Rightarrow> nat \<Rightarrow> host" where
  "host_at opsys calls h i = foldl (\<lambda>h' c. host_after opsys c h') h (take i calls)"

definition outcome_at :: "os \<Rightarrow> spawn_call list \<Rightarrow> host \<Rightarrow> nat \<Rightarrow> spawn_outcome" where
  "outcome_at opsys calls h i = fst (opsys (calls ! i) (host_at opsys calls h i))"

text \<open>
  An operating system on which every call runs into its timeout. \<^verbatim>\<open>subprocess.run\<close> then
  kills the process it started, the shell, and raises; \<open>ps\<close> are the command lines of the
  processes that this shell had started and that run on.
\<close>

definition os_timeout_leaving :: "string list \<Rightarrow> os" where
  "os_timeout_leaving ps call h = (TimeoutExpired, h\<lparr>procs := procs h @ ps\<rparr>)"

section \<open>Exceptions and loops\<close>

text \<open>The exceptions the modelled code can raise by itself.\<close>

datatype py_exn = IndexError | ValueError | OSError

text \<open>\<^verbatim>\<open>xs[i]\<close> for an index that is not negative.\<close>

definition py_nth :: "'a list \<Rightarrow> nat \<Rightarrow> py_exn + 'a" where
  "py_nth xs i = (if i < length xs then Inr (xs ! i) else Inl IndexError)"

text \<open>
  A \<^verbatim>\<open>for\<close> loop over a list whose body updates a value in place and may raise. Every
  body below raises before it assigns, so the value at the moment of the exception is the
  value before the failing iteration; the loop returns it with the exception.
\<close>

fun for_loop :: "('a \<Rightarrow> 's \<Rightarrow> py_exn + 's) \<Rightarrow> 'a list \<Rightarrow> 's \<Rightarrow> 's \<times> py_exn option" where
  "for_loop body [] s = (s, None)"
| "for_loop body (x # xs) s =
     (case body x s of
        Inl e \<Rightarrow> (s, Some e)
      | Inr s' \<Rightarrow> for_loop body xs s')"

section \<open>PackageManager\<close>

text \<open>
  One iteration of the loop of \<^verbatim>\<open>_parse_installed_list\<close>: the packages the line adds.
  \<^verbatim>\<open>self.manager\<close> is \<^verbatim>\<open>PACKAGE_MANAGER\<close>, a string or \<^verbatim>\<open>None\<close>.
\<close>

definition parse_installed_line ::
  "string option \<Rightarrow> string \<Rightarrow> py_exn + (string \<times> string \<times> string) list" where
  "parse_installed_line manager line =
     (if strip line \<noteq> [] then
        (if manager = Some ''apt'' \<and> startswith line ''ii'' then
           (let parts = split_ws line
            in if 3 \<le> length parts then
                 (case py_nth parts 1 of
                    Inl e \<Rightarrow> Inl e
                  | Inr p1 \<Rightarrow>
                      (case py_nth parts 2 of
                         Inl e \<Rightarrow> Inl e
                       | Inr p2 \<Rightarrow> Inr [(p1, p2, join '' '' (drop 3 parts))]))
               else Inr [])
         else if manager = Some ''brew'' then
           (let pkg = strip line in if pkg \<noteq> [] then Inr [(pkg, [], [])] else Inr [])
         else Inr [])
      else Inr [])"

fun parse_installed_lines ::
  "string option \<Rightarrow> string list \<Rightarrow> (string \<times> string \<times> string) list \<Rightarrow>
   py_exn + (string \<times> string \<times> string) list" where
  "parse_installed_lines manager [] packages = Inr packages"
| "parse_installed_lines manager (line # rest) packages =
     (case parse_installed_line manager line of
        Inl e \<Rightarrow> Inl e
      | Inr ps \<Rightarrow> parse_installed_lines manager rest (packages @ ps))"

definition parse_installed_list ::
  "string option \<Rightarrow> string \<Rightarrow> py_exn + (string \<times> string \<times> string) list" where
  "parse_installed_list manager output = parse_installed_lines manager (split_on nl output) []"

text \<open>The command table of \<^verbatim>\<open>install_package\<close>; \<open>None\<close>: the manager is not a key.\<close>

definition install_commands :: "string \<Rightarrow> string \<Rightarrow> string option" where
  "install_commands package m =
     (if m = ''apt'' then Some (''apt install -y '' @ package)
      else if m = ''dnf'' then Some (''dnf install -y '' @ package)
      else if m = ''zypper'' then Some (''zypper install -y '' @ package)
      else if m = ''pacman'' then Some (''pacman -S --noconfirm '' @ package)
      else if m = ''brew'' then Some (''brew install '' @ package)
      else None)"

definition install_package ::
  "os \<Rightarrow> string option \<Rightarrow> string \<Rightarrow> string option \<Rightarrow> host \<Rightarrow> (bool \<times> string) \<times> host" where
  "install_package opsys manager package password h =
     (case manager of
        None \<Rightarrow> ((False, ''No package manager found''), h)
      | Some m \<Rightarrow>
          (if m = [] then ((False, ''No package manager found''), h)
           else
             (case install_commands package m of
                None \<Rightarrow> ((False, ''Unsupported package manager''), h)
              | Some cmd \<Rightarrow>
                  (let ((out, err, code), h') =
                         (if m \<noteq> ''brew'' then run_sudo_command opsys cmd password h
                          else run_command opsys cmd h)
                   in ((code = 0, if code \<noteq> 0 then err else out), h')))))"

section \<open>RepositoryManager\<close>

text \<open>
  A repository entry of \<^verbatim>\<open>get_repositories\<close>; only the apt entries have the keys
  \<^verbatim>\<open>file\<close> and \<^verbatim>\<open>line\<close>.
\<close>

record repo =
  r_file :: "string option"
  r_line :: "nat option"
  r_name :: string
  r_enabled :: bool
  r_type :: string

definition sources_files :: "host \<Rightarrow> string list" where
  "sources_files h = ''/etc/apt/sources.list'' # glob h ''/etc/apt/sources.list.d/*.list''"

text \<open>The entries one line of an apt sources file adds to the listing.\<close>

definition apt_repo_line :: "string \<Rightarrow> nat \<Rightarrow> string \<Rightarrow> repo list" where
  "apt_repo_line source_file line_num raw =
     (let line = strip raw
      in if line \<noteq> [] \<and> \<not> startswith line ''#'' then
           (if str_in ''deb '' line then
              [\<lparr>r_file = Some source_file, r_line = Some line_num,
                r_name = strip (replace ''#'' [] line),
                r_enabled = (\<not> startswith line ''#deb ''), r_type = ''apt''\<rparr>]
            else [])
         else [])"

text \<open>
  One sources file: a file that does not exist is skipped, and so is one that cannot be
  opened (the \<^verbatim>\<open>except\<close> clause inside the loop only logs).
\<close>

definition apt_file_repos :: "host \<Rightarrow> string \<Rightarrow> repo list" where
  "apt_file_repos h source_file =
     (case files h source_file of
        None \<Rightarrow> []
      | Some content \<Rightarrow>
          concat (map (\<lambda>(n, raw). apt_repo_line source_file n raw)
                      (enumerate 1 (readlines content))))"

definition dnf_repo_line :: "string \<Rightarrow> repo list \<Rightarrow> py_exn + repo list" where
  "dnf_repo_line line repos =
     (if str_in ''Repo-id'' line then
        (case py_nth (split_once CHR '':'' line) 1 of
           Inl e \<Rightarrow> Inl e
         | Inr v \<Rightarrow>
             Inr (repos @ [\<lparr>r_file = None, r_line = None, r_name = strip v, r_enabled = True,
                            r_type = ''dnf''\<rparr>]))
      else Inr repos)"

definition zypper_repo_line :: "string \<Rightarrow> repo list \<Rightarrow> py_exn + repo list" where
  "zypper_repo_line line repos =
     (if line \<noteq> [] \<and> \<not> startswith line ''#'' \<and> CHR ''|'' \<in> set line then
        (let parts = map strip (split_on CHR ''|'' line)
         in if 3 \<le> length parts then
              (case py_nth parts 1 of
                 Inl e \<Rightarrow> Inl e
               | Inr alias \<Rightarrow>
                   (case py_nth parts 2 of
                      Inl e \<Rightarrow> Inl e
                    | Inr en \<Rightarrow>
                        Inr (repos @ [\<lparr>r_file = None, r_line = None, r_name = alias,
                                       r_enabled = (en = ''Yes''), r_type = ''zypper''\<rparr>])))
            else Inr repos)
      else Inr repos)"

definition pacman_repo_line :: "string \<Rightarrow> repo list \<Rightarrow> py_exn + repo list" where
  "pacman_repo_line line repos =
     (if strip line \<noteq> [] then
        (let r = strip line
         in Inr (repos @ [\<lparr>r_file = None, r_line = None, r_name = replace ''#'' [] r,
                           r_enabled = (\<not> startswith r ''#[''), r_type = ''pacman''\<rparr>]))
      else Inr repos)"

text \<open>
  A listing that runs one command and parses its output line by line. These loops are
  not inside a \<^verbatim>\<open>try\<close>: an exception of the body leaves \<^verbatim>\<open>get_repositories\<close>.
\<close>

definition command_repos ::
  "os \<Rightarrow> string \<Rightarrow> (string \<Rightarrow> repo list \<Rightarrow> py_exn + repo list) \<Rightarrow> host \<Rightarrow>
   (py_exn + repo list) \<times> host" where
  "command_repos opsys cmd body h =
     (let ((out, err, code), h') = run_command opsys cmd h
      in if code = 0 then
           (case for_loop body (split_on nl out) [] of
              (repos, None) \<Rightarrow> (Inr repos, h')
            | (repos, Some e) \<Rightarrow> (Inl e, h'))
         else (Inr [], h'))"

definition get_repositories ::
  "os \<Rightarrow> string option \<Rightarrow> host \<Rightarrow> (py_exn + repo list) \<times> host" where
  "get_repositories opsys pm h =
     (if pm = Some ''apt'' then (Inr (concat (map (apt_file_repos h) (sources_files h))), h)
      else if pm = Some ''dnf'' then command_repos opsys ''dnf repolist -v'' dnf_repo_line h
      else if pm = Some ''zypper'' then command_repos opsys ''zypper lr'' zypper_repo_line h
      else if pm = Some ''pacman'' then
        command_repos opsys
          (''grep -E '' @ [sq] @ ''^'' @ [bs] @ ''[.*'' @ [bs] @ '']'' @ [sq] @ '' /etc/pacman.conf'')
          pacman_repo_line h
      else (Inr [], h))"

text \<open>
  \<^verbatim>\<open>add_repository(repo_url, repo_name, password)\<close>; \<open>now\<close> is \<^verbatim>\<open>int(time.time())\<close>.
  Nothing in the body raises, so the \<^verbatim>\<open>except\<close> clause is never entered.
\<close>

definition add_repository ::
  "os \<Rightarrow> string option \<Rightarrow> nat \<Rightarrow> string \<Rightarrow> string option \<Rightarrow> string option \<Rightarrow> host \<Rightarrow>
   (bool \<times> string) \<times> host" where
  "add_repository opsys pm now repo_url repo_name password h =
     (if pm = Some ''apt'' then
        (let name = (case repo_name of
                       None \<Rightarrow> ''custom-repo-'' @ str_nat now
                     | Some n \<Rightarrow> if n = [] then ''custom-repo-'' @ str_nat now else n);
             sources_file = ''/etc/apt/sources.list.d/'' @ name @ ''.list'';
             cmd = ''echo '' @ [sq] @ ''deb '' @ repo_url @ [sq] @ '' > '' @ sources_file;
             ((out, err, code), h1) = run_sudo_command opsys cmd password h
         in if code = 0 then
              (let ((out2, err2, code2), h2) = run_sudo_command opsys ''apt update'' password h1
               in ((code2 = 0, if code2 \<noteq> 0 then err2 else ''Repository added successfully''),
                   h2))
            else ((False, err), h1))
      else if pm = Some ''dnf'' then
        (let cmd = ''dnf config-manager --add-repo '' @ repo_url;
             ((out, err, code), h1) = run_sudo_command opsys cmd password h
         in ((code = 0, if code \<noteq> 0 then err else out), h1))
      else if pm = Some ''zypper'' then
        (let cmd = ''zypper addrepo '' @ repo_url;
             ((out, err, code), h1) = run_sudo_command opsys cmd password h
         in ((code = 0, if code \<noteq> 0 then err else out), h1))
      else if pm = Some ''pacman'' then
        (let name = (case repo_name of
                       None \<Rightarrow> replace ''.git'' [] (last (split_on CHR ''/'' repo_url))
                     | Some n \<Rightarrow>
                         if n = [] then replace ''.git'' [] (last (split_on CHR ''/'' repo_url))
                         else n);
             (r0, h0) = run_sudo_command opsys ''cp /etc/pacman.conf /etc/pacman.conf.bak''
                          password h;
             cmd = ''echo -e '' @ [sq] @ [bs] @ ''n['' @ name @ '']'' @ [bs] @ ''nServer = ''
                   @ repo_url @ [sq] @ '' >> /etc/pacman.conf'';
             ((out, err, code), h1) = run_sudo_command opsys cmd password h0
         in ((code = 0, if code \<noteq> 0 then err else ''Repository added successfully''), h1))
      else ((False, ''Unsupported package manager''), h))"

text \<open>The loop over the lines of one sources file in \<^verbatim>\<open>toggle_repository\<close>.\<close>

definition toggle_line :: "string \<Rightarrow> bool \<Rightarrow> string \<Rightarrow> string \<times> bool" where
  "toggle_line repo_name enable line =
     (if str_in repo_name line then
        (if enable \<and> startswith line ''#deb '' then (drop 1 line, True)
         else if \<not> enable \<and> startswith line ''deb '' then (CHR ''#'' # line, True)
         else (line, False))
      else (line, False))"

definition toggle_lines :: "string \<Rightarrow> bool \<Rightarrow> string list \<Rightarrow> string list \<times> bool" where
  "toggle_lines repo_name enable ls =
     (map (\<lambda>l. fst (toggle_line repo_name enable l)) ls,
      list_ex (\<lambda>l. snd (toggle_line repo_name enable l)) ls)"

text \<open>The command text \<^verbatim>\<open>f"echo '{text}' > {source_file}"\<close>.\<close>

definition echo_to :: "string \<Rightarrow> string \<Rightarrow> string" where
  "echo_to txt source_file = ''echo '' @ [sq] @ txt @ [sq] @ '' > '' @ source_file"

text \<open>The text of \<^verbatim>\<open>str(e)\<close> when \<^verbatim>\<open>open\<close> is given a directory.\<close>

definition open_error_text :: "string \<Rightarrow> string" where
  "open_error_text p = ''[Errno 21] Is a directory: '' @ [sq] @ p @ [sq]"

fun toggle_apt_files ::
  "os \<Rightarrow> string \<Rightarrow> bool \<Rightarrow> string option \<Rightarrow> string list \<Rightarrow> host \<Rightarrow> (bool \<times> string) \<times> host"
  where
  "toggle_apt_files opsys repo_name enable password [] h =
     ((False, ''Repository not found''), h)"
| "toggle_apt_files opsys repo_name enable password (source_file # rest) h =
     (if path_exists h source_file then
        (case files h source_file of
           None \<Rightarrow> ((False, open_error_text source_file), h)
         | Some content \<Rightarrow>
             (let (new_lines, toggled) = toggle_lines repo_name enable (readlines content)
              in if toggled then
                   (let cmd = echo_to (concat new_lines) source_file;
                        ((out, err, code), h1) = run_sudo_command opsys cmd password h
                    in if code = 0 then
                         (let ((out2, err2, code2), h2) =
                                run_sudo_command opsys ''apt update'' password h1
                          in ((code2 = 0,
                               if code2 \<noteq> 0 then err2 else ''Repository toggled successfully''),
                              h2))
                       else ((False, err), h1))
                 else toggle_apt_files opsys repo_name enable password rest h))
      else toggle_apt_files opsys repo_name enable password rest h)"

definition toggle_repository ::
  "os \<Rightarrow> string option \<Rightarrow> string \<Rightarrow> bool \<Rightarrow> string option \<Rightarrow> host \<Rightarrow> (bool \<times> string) \<times> host"
  where
  "toggle_repository opsys pm repo_name enable password h =
     (if pm = Some ''apt'' then
        toggle_apt_files opsys repo_name enable password (sources_files h) h
      else if pm = Some ''dnf'' then
        (let action = (if enable then ''enable'' else ''disable'');
             cmd = ''dnf config-manager --'' @ action @ '' '' @ repo_name;
             ((out, err, code), h1) = run_sudo_command opsys cmd password h
         in ((code = 0, if code \<noteq> 0 then err else out), h1))
      else if pm = Some ''zypper'' then
        (let action = (if enable then ''enable'' else ''disable'');
             cmd = ''zypper '' @ action @ ''repo '' @ repo_name;
             ((out, err, code), h1) = run_sudo_command opsys cmd password h
         in ((code = 0, if code \<noteq> 0 then err else out), h1))
      else if pm = Some ''pacman'' then
        (let cmd = (if enable
                    then ''sed -i '' @ [sq] @ ''s/^#'' @ [bs] @ ''['' @ repo_name @ [bs] @ '']/[''
                         @ repo_name @ ''/'' @ [sq] @ '' /etc/pacman.conf''
                    else ''sed -i '' @ [sq] @ ''s/^'' @ [bs] @ ''['' @ repo_name @ [bs] @ '']/#[''
                         @ repo_name @ ''/'' @ [sq] @ '' /etc/pacman.conf'');
             ((out, err, code), h1) = run_sudo_command opsys cmd password h
         in ((code = 0, if code \<noteq> 0 then err else ''Repository toggled successfully''), h1))
      else ((False, ''Unsupported package manager''), h))"

section \<open>BootManager and KernelManager\<close>

definition update_grub :: "os \<Rightarrow> string option \<Rightarrow> host \<Rightarrow> (bool \<times> string) \<times> host" where
  "update_grub opsys password h =
     (let ((out, err, code), h1) = run_sudo_command opsys ''update-grub'' password h
      in ((code = 0, if code \<noteq> 0 then err else out), h1))"

text \<open>An entry of the list \<^verbatim>\<open>get_installed_kernels\<close> returns.\<close>

record kernel =
  k_version :: string
  k_path :: string
  k_current :: bool
  k_size :: int

text \<open>
  The first loop of \<^verbatim>\<open>remove_old_kernels\<close>: \<open>kept\<close> counts the kernels kept so far,
  the result is \<^verbatim>\<open>to_remove\<close>.
\<close>

fun select_old :: "int \<Rightarrow> int \<Rightarrow> kernel list \<Rightarrow> kernel list" where
  "select_old keep_count kept [] = []"
| "select_old keep_count kept (k # ks) =
     (if k_current k then select_old keep_count kept ks
      else if kept < keep_count then select_old keep_count (kept + 1) ks
      else k # select_old keep_count kept ks)"

definition kernel_remove_cmd :: "string option \<Rightarrow> string \<Rightarrow> string" where
  "kernel_remove_cmd pm v =
     (if pm = Some ''apt'' then ''apt remove -y linux-image-'' @ v @ '' linux-headers-'' @ v
      else if pm = Some ''dnf'' then ''dnf remove -y kernel-'' @ v
      else if pm = Some ''zypper'' then ''zypper remove -y kernel-'' @ v
      else ''rm -f /boot/vmlinuz-'' @ v @ '' /boot/initrd.img-'' @ v @ '' /boot/config-'' @ v
           @ '' /boot/System.map-'' @ v)"

text \<open>The spawn calls that remove the kernels of a list, one call for each kernel.\<close>

definition removal_calls :: "string option \<Rightarrow> string option \<Rightarrow> kernel list \<Rightarrow> spawn_call list"
  where
  "removal_calls pm password ks =
     map (\<lambda>k. sudo_call (kernel_remove_cmd pm (k_version k)) password) ks"

text \<open>
  The second loop: one command per kernel; the first command that fails ends the
  function with its message (\<open>Some\<close>), \<open>None\<close> means that every command succeeded.
\<close>

fun remove_kernels ::
  "os \<Rightarrow> string option \<Rightarrow> string option \<Rightarrow> kernel list \<Rightarrow> host \<Rightarrow> string option \<times> host" where
  "remove_kernels opsys pm password [] h = (None, h)"
| "remove_kernels opsys pm password (k # ks) h =
     (let ((out, err, code), h1) =
            run_sudo_command opsys (kernel_remove_cmd pm (k_version k)) password h
      in if code \<noteq> 0
         then (Some (''Failed to remove kernel '' @ k_version k @ '': '' @ err), h1)
         else remove_kernels opsys pm password ks h1)"

text \<open>
  \<^verbatim>\<open>remove_old_kernels(keep_count, password)\<close>; \<open>kernels\<close> is the list
  \<^verbatim>\<open>get_installed_kernels()\<close> returned.
\<close>

definition remove_old_kernels ::
  "os \<Rightarrow> string option \<Rightarrow> kernel list \<Rightarrow> int \<Rightarrow> string option \<Rightarrow> host \<Rightarrow>
   (bool \<times> string) \<times> host" where
  "remove_old_kernels opsys pm kernels keep_count password h =
     (let to_remove = select_old keep_count 0 kernels
      in if to_remove = [] then ((True, ''No old kernels to remove''), h)
         else
           (case remove_kernels opsys pm password to_remove h of
              (Some msg, h1) \<Rightarrow> ((False, msg), h1)
            | (None, h1) \<Rightarrow>
                (let h2 = (if pm = Some ''apt'' then snd (update_grub opsys password h1) else h1)
                 in ((True, ''Removed '' @ str_nat (length to_remove) @ '' old kernels''), h2))))"

record boot_config =
  bc_bootloader :: string
  bc_default_entry :: string
  bc_timeout :: int
  bc_entries :: "string list"

text \<open>
  \<^verbatim>\<open>re.search(r'"([^"]+)"', line)\<close>: the text between the leftmost double quote that
  is followed by at least one other character and then by a closing double quote.
\<close>

fun search_quoted :: "string \<Rightarrow> string option" where
  "search_quoted [] = None"
| "search_quoted (c # cs) =
     (if c = dq \<and> takeWhile (\<lambda>x. x \<noteq> dq) cs \<noteq> [] \<and> dropWhile (\<lambda>x. x \<noteq> dq) cs \<noteq> []
      then Some (takeWhile (\<lambda>x. x \<noteq> dq) cs)
      else search_quoted cs)"

definition grub_entry_line :: "string \<Rightarrow> boot_config \<Rightarrow> py_exn + boot_config" where
  "grub_entry_line line config =
     (if startswith line ''menuentry'' then
        (case search_quoted line of
           Some title \<Rightarrow> Inr (config\<lparr>bc_entries := bc_entries config @ [title]\<rparr>)
         | None \<Rightarrow> Inr config)
      else if startswith line ''set default='' then
        (case py_nth (split_on CHR ''='' line) 1 of
           Inl e \<Rightarrow> Inl e
         | Inr v \<Rightarrow> Inr (config\<lparr>bc_default_entry := strip v\<rparr>))
      else Inr config)"

definition grub_timeout_line :: "string \<Rightarrow> boot_config \<Rightarrow> py_exn + boot_config" where
  "grub_timeout_line line config =
     (if startswith line ''set timeout='' then
        (case py_nth (split_on CHR ''='' line) 1 of
           Inl e \<Rightarrow> Inl e
         | Inr v \<Rightarrow>
             (case py_int (strip v) of
                None \<Rightarrow> Inl ValueError
              | Some n \<Rightarrow> Inr (config\<lparr>bc_timeout := n\<rparr>)))
      else Inr config)"

definition loader_conf_line :: "string \<Rightarrow> boot_config \<Rightarrow> py_exn + boot_config" where
  "loader_conf_line raw config =
     (let line = strip raw
      in if startswith line ''default '' then
           (case py_nth (split_ws line) 1 of
              Inl e \<Rightarrow> Inl e
            | Inr v \<Rightarrow> Inr (config\<lparr>bc_default_entry := v\<rparr>))
         else if startswith line ''timeout '' then
           (case py_nth (split_ws line) 1 of
              Inl e \<Rightarrow> Inl e
            | Inr v \<Rightarrow>
                (case py_int v of
                   None \<Rightarrow> Inl ValueError
                 | Some n \<Rightarrow> Inr (config\<lparr>bc_timeout := n\<rparr>)))
         else Inr config)"

definition entry_names :: "string list \<Rightarrow> string list" where
  "entry_names names =
     map (\<lambda>n. take (length n - 5) n) (filter (\<lambda>n. endswith n ''.conf'') names)"

text \<open>
  \<^verbatim>\<open>get_boot_config()\<close>: the whole body is inside one \<^verbatim>\<open>try\<close>, whose \<^verbatim>\<open>except\<close>
  clause logs and falls through to \<^verbatim>\<open>return config\<close>; an exception therefore ends the
  body and the configuration filled in so far is returned. \<open>sys\<close> is \<^verbatim>\<open>SYSTEM\<close>.
\<close>

definition get_boot_config :: "os \<Rightarrow> string \<Rightarrow> host \<Rightarrow> boot_config \<times> host" where
  "get_boot_config opsys sys h =
     (let config = \<lparr>bc_bootloader = ''Unknown'', bc_default_entry = ''Unknown'', bc_timeout = 0,
                    bc_entries = []\<rparr>
      in if sys = ''Linux'' then
           (if path_exists h ''/boot/grub/grub.cfg'' then
              (let config1 = config\<lparr>bc_bootloader := ''GRUB2''\<rparr>;
                   ((out, err, code), h1) =
                     run_command opsys
                       (''grep -E '' @ [sq] @ ''^menuentry|^set default='' @ [sq]
                        @ '' /boot/grub/grub.cfg'') h;
                   (config2, raised) =
                     (if code = 0 then for_loop grub_entry_line (split_on nl out) config1
                      else (config1, None))
               in (case raised of
                     Some e \<Rightarrow> (config2, h1)
                   | None \<Rightarrow>
                       (let ((out2, err2, code2), h2) =
                              run_command opsys
                                (''grep -E '' @ [sq] @ ''^set timeout='' @ [sq]
                                 @ '' /boot/grub/grub.cfg'') h1
                        in if code2 = 0
                           then (fst (for_loop grub_timeout_line (split_on nl out2) config2), h2)
                           else (config2, h2))))
            else if path_exists h ''/boot/loader/loader.conf'' then
              (let config1 = config\<lparr>bc_bootloader := ''systemd-boot''\<rparr>
               in (case files h ''/boot/loader/loader.conf'' of
                     None \<Rightarrow> (config1, h)
                   | Some content \<Rightarrow>
                       (case for_loop loader_conf_line (readlines content) config1 of
                          (config2, Some e) \<Rightarrow> (config2, h)
                        | (config2, None) \<Rightarrow>
                            (if path_exists h ''/boot/loader/entries'' then
                               (case listdir h ''/boot/loader/entries'' of
                                  None \<Rightarrow> (config2, h)
                                | Some names \<Rightarrow>
                                    (config2\<lparr>bc_entries :=
                                               bc_entries config2 @ entry_names names\<rparr>, h))
                             else (config2, h)))))
            else if path_exists h ''/boot/efi/EFI/refind/refind.conf'' then
              (config\<lparr>bc_bootloader := ''rEFInd''\<rparr>, h)
            else (config, h))
         else (config, h))"

section \<open>SystemServiceManager\<close>

record service_status =
  st_name :: string
  st_loaded :: bool
  st_active :: bool
  st_enabled :: bool
  st_description :: string
  st_main_pid :: int
  st_memory :: int
  st_tasks :: int

text \<open>One iteration of the loop of \<^verbatim>\<open>get_service_status\<close> over the output lines.\<close>

definition show_line :: "string \<Rightarrow> service_status \<Rightarrow> py_exn + service_status" where
  "show_line line status =
     (if CHR ''='' \<in> set line then
        (let key = takeWhile (\<lambda>x. x \<noteq> CHR ''='') line;
             val = tl (dropWhile (\<lambda>x. x \<noteq> CHR ''='') line)
         in if key = ''LoadState'' then Inr (status\<lparr>st_loaded := (val \<noteq> ''not-found'')\<rparr>)
            else if key = ''ActiveState'' then Inr (status\<lparr>st_active := (val = ''active'')\<rparr>)
            else if key = ''UnitFileState'' then
              Inr (status\<lparr>st_enabled := (val = ''enabled'')\<rparr>)
            else if key = ''Description'' then Inr (status\<lparr>st_description := val\<rparr>)
            else if key = ''MainPID'' then
              (case py_int val of
                 None \<Rightarrow> Inl ValueError
               | Some n \<Rightarrow> Inr (status\<lparr>st_main_pid := n\<rparr>))
            else if key = ''MemoryCurrent'' then
              (if val \<noteq> ''[not set]'' then
                 (case py_int val of
                    None \<Rightarrow> Inl ValueError
                  | Some n \<Rightarrow> Inr (status\<lparr>st_memory := n div 1024 div 1024\<rparr>))
               else Inr status)
            else if key = ''TasksCurrent'' then
              (if val \<noteq> ''[not set]'' then
                 (case py_int val of
                    None \<Rightarrow> Inl ValueError
                  | Some n \<Rightarrow> Inr (status\<lparr>st_tasks := n\<rparr>))
               else Inr status)
            else Inr status)
      else Inr status)"

text \<open>
  The parsing of the text \<^verbatim>\<open>systemctl show\<close> printed, as \<^verbatim>\<open>get_service_status\<close> does
  it: the loop ends at the first exception, which the \<^verbatim>\<open>except\<close> clause logs, and the
  status filled in so far is returned.
\<close>

definition parse_show :: "string \<Rightarrow> service_status \<Rightarrow> service_status" where
  "parse_show out status = fst (for_loop show_line (split_on nl out) status)"

text \<open>The dictionary \<^verbatim>\<open>status\<close> as \<^verbatim>\<open>get_service_status\<close> creates it.\<close>

definition status0 :: "string \<Rightarrow> service_status" where
  "status0 service_name =
     \<lparr>st_name = service_name, st_loaded = False, st_active = False, st_enabled = False,
      st_description = [], st_main_pid = 0, st_memory = 0, st_tasks = 0\<rparr>"

definition get_service_status :: "os \<Rightarrow> string \<Rightarrow> host \<Rightarrow> service_status \<times> host" where
  "get_service_status opsys service_name h =
     (let status = status0 service_name
      in if path_exists h ''/usr/bin/systemctl'' then
           (let ((out, err, code), h1) = run_command opsys (''systemctl show '' @ service_name) h
            in if code = 0 then (parse_show out status, h1) else (status, h1))
         else (status, h))"

section \<open>System detection\<close>








section \<open>Example data\<close>

definition kernels_demo :: "kernel list" where
  "kernels_demo =
     [\<lparr>k_version = ''6.8.0-45'', k_path = ''/boot/vmlinuz-6.8.0-45'', k_current = False, k_size = 14\<rparr>,
      \<lparr>k_version = ''6.8.0-41'', k_path = ''/boot/vmlinuz-6.8.0-41'', k_current = True, k_size = 14\<rparr>,
      \<lparr>k_version = ''6.8.0-40'', k_path = ''/boot/vmlinuz-6.8.0-40'', k_current = False, k_size = 14\<rparr>,
      \<lparr>k_version = ''6.5.0-9'', k_path = ''/boot/vmlinuz-6.5.0-9'', k_current = False, k_size = 13\<rparr>]"

text \<open>
  A host on which the image files of these kernels exist, and a dnf system on it:
  \<^verbatim>\<open>dnf remove -y kernel-<v>\<close> deletes the image file of version \<open>v\<close>, except for one
  protected version, for which the command fails.
\<close>

definition host_boot :: host where
  "host_boot =
     host_empty\<lparr>files := (\<lambda>p. if p \<in> set (map k_path kernels_demo) then Some [] else None)\<rparr>"

definition os_dnf_protecting :: "string \<Rightarrow> os" where
  "os_dnf_protecting v call h =
     (let c = sc_cmd call;
          pre = ''sudo dnf remove -y kernel-''
      in if c = pre @ v then (Completed [] (''Error: kernel-'' @ v @ '' is protected'') 1, h)
         else if startswith c pre then
           (Completed [] [] 0,
            h\<lparr>files := (files h)(''/boot/vmlinuz-'' @ drop (length pre) c := None)\<rparr>)
         else (Completed [] [] 0, h))"

text \<open>A host with systemd, and the text \<^verbatim>\<open>systemctl show\<close> prints for a unit.\<close>

definition host_systemd :: host where
  "host_systemd = host_empty\<lparr>files := (\<lambda>p. if p = ''/usr/bin/systemctl'' then Some [] else None)\<rparr>"

definition show_fixture :: "string \<Rightarrow> string" where
  "show_fixture mem =
     ''LoadState=loaded'' @ [nl] @ ''ActiveState=active'' @ [nl] @ ''MainPID=812'' @ [nl]
     @ ''MemoryCurrent='' @ mem @ [nl] @ ''TasksCurrent=5'' @ [nl] @ ''UnitFileState=enabled''
     @ [nl]"



text \<open>
  A systemd-boot host: the text of \<^verbatim>\<open>/boot/loader/loader.conf\<close> is a parameter, the
  directory \<^verbatim>\<open>/boot/loader/entries\<close> holds two entries.
\<close>

definition host_systemd_boot :: "string \<Rightarrow> host" where
  "host_systemd_boot loader_conf =
     host_empty
       \<lparr>files := (\<lambda>p. if p = ''/boot/loader/loader.conf'' then Some loader_conf else None),
        listdir := (\<lambda>p. if p = ''/boot/loader/entries''
                           then Some [''arch.conf'', ''arch-fallback.conf''] else None)\<rparr>"

section \<open>The shell as the repository operations need it\<close>

text \<open>
  The text that the apt branch of \<^verbatim>\<open>toggle_repository\<close> hands to \<^verbatim>\<open>echo\<close> for a
  sources file with the given stored text: \<^verbatim>\<open>''.join(new_lines)\<close>.
\<close>

definition rewritten :: "string \<Rightarrow> bool \<Rightarrow> string \<Rightarrow> string" where
  "rewritten repo_name enable content =
     concat (fst (toggle_lines repo_name enable (readlines content)))"

text \<open>
  What the apt branch of \<^verbatim>\<open>toggle_repository\<close> expects of its two commands.
  \<open>echo_stores\<close>: wherever the file exists, \<^verbatim>\<open>echo '<text>' > <path>\<close> for this one text
  ends with return code 0 and leaves the text and the line feed of \<^verbatim>\<open>echo\<close> in the file;
  a shell run by root does so for a text without single quote that \<^verbatim>\<open>echo\<close> prints as
  it is. \<open>update_keeps\<close>: \<^verbatim>\<open>apt update\<close> does not change that file. Neither command
  changes which files \<^verbatim>\<open>/etc/apt/sources.list.d\<close> holds.
\<close>

definition echo_stores :: "os \<Rightarrow> string option \<Rightarrow> string \<Rightarrow> string \<Rightarrow> bool" where
  "echo_stores opsys password path txt =
     (\<forall>h. files h path \<noteq> None \<longrightarrow>
        (\<exists>out err. fst (opsys (sudo_call (echo_to txt path) password) h) = Completed out err 0) \<and>
        files (snd (opsys (sudo_call (echo_to txt path) password) h)) path = Some (txt @ [nl]) \<and>
        glob (snd (opsys (sudo_call (echo_to txt path) password) h))
             ''/etc/apt/sources.list.d/*.list'' = glob h ''/etc/apt/sources.list.d/*.list'')"

definition update_keeps :: "os \<Rightarrow> string option \<Rightarrow> string \<Rightarrow> bool" where
  "update_keeps opsys password path =
     (\<forall>h. files (snd (opsys (sudo_call ''apt update'' password) h)) path = files h path \<and>
          glob (snd (opsys (sudo_call ''apt update'' password) h))
               ''/etc/apt/sources.list.d/*.list'' = glob h ''/etc/apt/sources.list.d/*.list'')"

text \<open>
  An operating system of that kind, for calls without password: a command
  \<^verbatim>\<open>sudo echo '<text>' > <path>\<close> stores the text, every other command changes nothing,
  and every command ends with return code 0.
\<close>

definition os_root_writer :: "string \<Rightarrow> os" where
  "os_root_writer path call h =
     (let c = sc_cmd call;
          pre = ''sudo echo '' @ [sq];
          suf = [sq] @ '' > '' @ path
      in if startswith c pre \<and> endswith c suf \<and> length pre + length suf \<le> length c
         then (Completed [] [] 0,
               h\<lparr>files := (files h)(path \<mapsto>
                    take (length c - length pre - length suf) (drop (length pre) c) @ [nl])\<rparr>)
         else (Completed [] [] 0, h))"

text \<open>
  Lines as text mode delivers them: each is not empty, has its only line feed at its end
  and holds no carriage return.
\<close>

definition nl_lines :: "string list \<Rightarrow> bool" where
  "nl_lines ls =
     list_all (\<lambda>l. l \<noteq> [] \<and> last l = nl \<and> nl \<notin> set (butlast l) \<and> cr \<notin> set l) ls"

text \<open>A Debian host whose only sources file is \<^verbatim>\<open>/etc/apt/sources.list\<close>.\<close>

definition host_apt :: "string \<Rightarrow> host" where
  "host_apt sources_list =
     host_empty\<lparr>files := (\<lambda>p. if p = ''/etc/apt/sources.list'' then Some sources_list else None)\<rparr>"

section \<open>Properties of the execution gateway\<close>

lemma subprocess_run_fst: "fst (subprocess_run opsys call h) = fst (opsys call h)"
  by (simp add: subprocess_run_def split: prod.splits)

lemma subprocess_run_spawned: "spawned (snd (subprocess_run opsys call h)) = spawned h @ [call]"
  by (simp add: subprocess_run_def split: prod.splits)

lemma run_command_full_spawned:
  "spawned (snd (run_command_full opsys cmd shell timeout h)) =
     spawned h @ [\<lparr>sc_cmd = cmd, sc_shell = shell, sc_timeout = timeout\<rparr>]"
proof -
  obtain r h' where eq:
    "subprocess_run opsys \<lparr>sc_cmd = cmd, sc_shell = shell, sc_timeout = timeout\<rparr> h = (r, h')"
    by (cases "subprocess_run opsys \<lparr>sc_cmd = cmd, sc_shell = shell, sc_timeout = timeout\<rparr> h")
  have "spawned h' = spawned h @ [\<lparr>sc_cmd = cmd, sc_shell = shell, sc_timeout = timeout\<rparr>]"
    using subprocess_run_spawned [of opsys "\<lparr>sc_cmd = cmd, sc_shell = shell, sc_timeout = timeout\<rparr>" h]
    by (simp add: eq)
  then show ?thesis
    by (cases r) (simp_all add: run_command_full_def eq)
qed

lemma run_command_full_fst:
  "fst (run_command_full opsys cmd shell timeout h) =
     (case fst (opsys \<lparr>sc_cmd = cmd, sc_shell = shell, sc_timeout = timeout\<rparr> h) of
        Completed out err rc \<Rightarrow> (strip out, strip err, rc)
      | TimeoutExpired \<Rightarrow> ([], ''Command timed out'', 1)
      | OtherException msg \<Rightarrow> ([], msg, 1))"
proof -
  obtain r h' where eq:
    "subprocess_run opsys \<lparr>sc_cmd = cmd, sc_shell = shell, sc_timeout = timeout\<rparr> h = (r, h')"
    by (cases "subprocess_run opsys \<lparr>sc_cmd = cmd, sc_shell = shell, sc_timeout = timeout\<rparr> h")
  have "fst (opsys \<lparr>sc_cmd = cmd, sc_shell = shell, sc_timeout = timeout\<rparr> h) = r"
    using subprocess_run_fst [of opsys "\<lparr>sc_cmd = cmd, sc_shell = shell, sc_timeout = timeout\<rparr>" h]
    by (simp add: eq)
  then show ?thesis
    by (cases r) (simp_all add: run_command_full_def eq)
qed

lemma run_command_full_snd:
  "snd (run_command_full opsys cmd shell timeout h) =
     host_after opsys \<lparr>sc_cmd = cmd, sc_shell = shell, sc_timeout = timeout\<rparr> h"
proof -
  obtain r h' where eq: "opsys \<lparr>sc_cmd = cmd, sc_shell = shell, sc_timeout = timeout\<rparr> h = (r, h')"
    by (cases "opsys \<lparr>sc_cmd = cmd, sc_shell = shell, sc_timeout = timeout\<rparr> h")
  show ?thesis
    by (cases r) (simp_all add: run_command_full_def subprocess_run_def host_after_def eq)
qed

lemma run_sudo_command_eq:
  "run_sudo_command opsys cmd password h =
     (((case fst (opsys (sudo_call cmd password) h) of
          Completed out err rc \<Rightarrow> strip out
        | TimeoutExpired \<Rightarrow> []
        | OtherException msg \<Rightarrow> []),
       reported_err (fst (opsys (sudo_call cmd password) h)),
       reported_code (fst (opsys (sudo_call cmd password) h))),
      host_after opsys (sudo_call cmd password) h)"
proof -
  have "fst (run_sudo_command opsys cmd password h) =
     ((case fst (opsys (sudo_call cmd password) h) of
          Completed out err rc \<Rightarrow> strip out
        | TimeoutExpired \<Rightarrow> []
        | OtherException msg \<Rightarrow> []),
       reported_err (fst (opsys (sudo_call cmd password) h)),
       reported_code (fst (opsys (sudo_call cmd password) h)))"
    by (simp add: run_sudo_command_def run_command_def run_command_full_fst sudo_call_def
        reported_err_def reported_code_def split: spawn_outcome.splits)
  moreover have "snd (run_sudo_command opsys cmd password h) =
      host_after opsys (sudo_call cmd password) h"
    by (simp add: run_sudo_command_def run_command_def run_command_full_snd sudo_call_def)
  ultimately show ?thesis by (simp add: prod_eq_iff)
qed

lemma str_in_prefix: "str_in p (p @ t)"
proof (cases "p @ t")
  case Nil
  then show ?thesis by simp
next
  case (Cons c cs)
  have "startswith (p @ t) p" by (simp add: startswith_def)
  then show ?thesis unfolding Cons by simp
qed

lemma str_in_append: "str_in p (a @ p @ t)"
proof (induction a)
  case Nil
  show ?case using str_in_prefix by simp
next
  case (Cons c a)
  then show ?case by simp
qed

text \<open>
  Claim C10. \<^verbatim>\<open>run_command\<close> returns a triple (stdout, stderr, return code) for every
  command text, shell flag and timeout, whatever \<^verbatim>\<open>subprocess.run\<close> does: the stripped
  output and the return code of a completed process, the triple
  \<^verbatim>\<open>("", "Command timed out", 1)\<close> when the call times out, and
  \<^verbatim>\<open>("", message, 1)\<close> when it raises any other exception.
\<close>

theorem run_command_total:
  "\<exists>out err rc.
     fst (run_command_full opsys cmd shell timeout h) = (out, err, rc) \<and>
     (case fst (opsys \<lparr>sc_cmd = cmd, sc_shell = shell, sc_timeout = timeout\<rparr> h) of
        Completed out' err' rc' \<Rightarrow> out = strip out' \<and> err = strip err' \<and> rc = rc'
      | TimeoutExpired \<Rightarrow> out = [] \<and> err = ''Command timed out'' \<and> rc = 1
      | OtherException msg \<Rightarrow> out = [] \<and> err = msg \<and> rc = 1)"
  by (simp add: run_command_full_fst split: spawn_outcome.splits)

theorem run_command_total_witness:
  "fst (run_command_full (os_const TimeoutExpired) ''sleep 60'' True 1 host_empty) =
     ([], ''Command timed out'', 1)"
  using run_command_total [of "os_const TimeoutExpired" "''sleep 60''" True 1 host_empty]
  by (simp add: os_const_def)

text \<open>
  Claim C4, as stated, fails in both parts. The triple returned after a timeout is the
  triple returned for a process that ends with return code 1 and prints
  \<^verbatim>\<open>Command timed out\<close> on stderr. And when the timeout of the pipeline
  \<^verbatim>\<open>echo x | sleep 60\<close> expires, \<^verbatim>\<open>subprocess.run\<close> kills the shell it started and
  \<^verbatim>\<open>sleep 60\<close>, which that shell started, runs on: it is still running when
  \<^verbatim>\<open>run_command\<close> has returned.
\<close>

theorem timeout_indistinguishable_counterexample:
  "fst (run_command_full (os_timeout_leaving [''sleep 60'']) ''echo x | sleep 60'' True 1
          host_empty) =
   fst (run_command_full (os_const (Completed [] ''Command timed out'' 1)) ''echo x | sleep 60''
          True 1 host_empty) \<and>
   procs (snd (run_command_full (os_timeout_leaving [''sleep 60'']) ''echo x | sleep 60'' True 1
                 host_empty)) = [''sleep 60'']"
  by (simp add: run_command_full_fst run_command_full_snd host_after_def os_const_def
      os_timeout_leaving_def host_empty_def strip_def is_space_def)

text \<open>
  Claim C4, amended. When the spawn call times out, \<^verbatim>\<open>run_command\<close> returns
  \<^verbatim>\<open>("", "Command timed out", 1)\<close>: the timeout is reported through the stderr text
  alone, in the shape and with the return code of an ordinary failed command. It returns
  with the host as that one call left it, the call added to the log: \<^verbatim>\<open>run_command\<close>
  makes no further call and ends no process itself, so that the processes running after
  the call are the processes running when it has returned.
\<close>

theorem timeout_reported_as_text:
  assumes "fst (opsys \<lparr>sc_cmd = cmd, sc_shell = shell, sc_timeout = timeout\<rparr> h) = TimeoutExpired"
  shows "fst (run_command_full opsys cmd shell timeout h) = ([], ''Command timed out'', 1) \<and>
         fst (run_command_full opsys cmd shell timeout h) =
         fst (run_command_full (os_const (Completed [] ''Command timed out'' 1)) cmd shell timeout h) \<and>
         snd (run_command_full opsys cmd shell timeout h) =
           (snd (opsys \<lparr>sc_cmd = cmd, sc_shell = shell, sc_timeout = timeout\<rparr> h))
             \<lparr>spawned := spawned h @ [\<lparr>sc_cmd = cmd, sc_shell = shell, sc_timeout = timeout\<rparr>]\<rparr> \<and>
         procs (snd (run_command_full opsys cmd shell timeout h)) =
           procs (snd (opsys \<lparr>sc_cmd = cmd, sc_shell = shell, sc_timeout = timeout\<rparr> h))"
  using assms
  by (simp add: run_command_full_fst run_command_full_snd host_after_def os_const_def strip_def
      is_space_def)

theorem timeout_reported_as_text_witness:
  "fst (os_timeout_leaving [''sleep 60'']
          \<lparr>sc_cmd = ''echo x | sleep 60'', sc_shell = True, sc_timeout = 1\<rparr> host_empty)
     = TimeoutExpired \<and>
   fst (run_command_full (os_timeout_leaving [''sleep 60'']) ''echo x | sleep 60'' True 1
          host_empty) = ([], ''Command timed out'', 1) \<and>
   procs (snd (run_command_full (os_timeout_leaving [''sleep 60'']) ''echo x | sleep 60'' True 1
                 host_empty)) = [''sleep 60''] \<and>
   spawned (snd (run_command_full (os_timeout_leaving [''sleep 60'']) ''echo x | sleep 60'' True 1
                   host_empty)) =
     [\<lparr>sc_cmd = ''echo x | sleep 60'', sc_shell = True, sc_timeout = 1\<rparr>]"
  using timeout_reported_as_text [of "os_timeout_leaving [''sleep 60'']" "''echo x | sleep 60''"
      True 1 host_empty]
  by (simp add: os_timeout_leaving_def host_empty_def)

text \<open>
  Claim C1, as stated, fails: with a password, the one spawn call of
  \<^verbatim>\<open>run_sudo_command\<close> carries the password inside the command text given to the
  shell.
\<close>

theorem sudo_password_counterexample:
  "spawned (snd (run_sudo_command (os_const (Completed [] [] 0)) ''apt update'' (Some ''hunter2'')
                   host_empty)) =
     [\<lparr>sc_cmd = ''echo '' @ [sq] @ ''hunter2'' @ [sq] @ '' | sudo -S apt update'',
       sc_shell = True, sc_timeout = 30\<rparr>]"
  by (simp add: run_sudo_command_def run_command_def run_command_full_spawned sudo_cmd_def
      host_empty_def)

text \<open>
  Claim C1, amended. \<^verbatim>\<open>run_sudo_command\<close> makes exactly one spawn call, through the
  shell with the default timeout; its command text is \<^verbatim>\<open>sudo <cmd>\<close> when no password
  (or an empty one) is given, and \<^verbatim>\<open>echo '<password>' | sudo -S <cmd>\<close> otherwise, so
  that a non-empty password is a substring of the command text.
\<close>

theorem sudo_password_in_command_text:
  "spawned (snd (run_sudo_command opsys cmd password h)) =
     spawned h @ [\<lparr>sc_cmd = sudo_cmd cmd password, sc_shell = True, sc_timeout = 30\<rparr>] \<and>
   (case password of
      None \<Rightarrow> sudo_cmd cmd password = ''sudo '' @ cmd
    | Some pw \<Rightarrow>
        if pw = [] then sudo_cmd cmd password = ''sudo '' @ cmd
        else sudo_cmd cmd password = ''echo '' @ [sq] @ pw @ [sq] @ '' | sudo -S '' @ cmd \<and>
             str_in pw (sudo_cmd cmd password))"
proof -
  have "str_in pw (''echo '' @ [sq] @ pw @ [sq] @ '' | sudo -S '' @ cmd)" for pw
    using str_in_append [of pw "''echo '' @ [sq]" "[sq] @ '' | sudo -S '' @ cmd"] by simp
  then show ?thesis
    by (simp add: run_sudo_command_def run_command_def run_command_full_spawned sudo_cmd_def
        split: option.splits)
qed

theorem sudo_password_in_command_text_witness:
  "str_in ''hunter2'' (sudo_cmd ''apt update'' (Some ''hunter2''))"
  using sudo_password_in_command_text [of "os_const (Completed [] [] 0)" "''apt update''" "Some ''hunter2''" host_empty]
  by (simp add: sudo_cmd_def startswith_def)

lemma run_command_spawned:
  "spawned (snd (run_command opsys cmd h)) =
     spawned h @ [\<lparr>sc_cmd = cmd, sc_shell = True, sc_timeout = 30\<rparr>]"
  by (simp add: run_command_def run_command_full_spawned)

lemma run_sudo_command_spawned:
  "spawned (snd (run_sudo_command opsys cmd password h)) =
     spawned h @ [\<lparr>sc_cmd = sudo_cmd cmd password, sc_shell = True, sc_timeout = 30\<rparr>]"
  by (simp add: run_sudo_command_def run_command_spawned)

lemma new_calls_refl: "new_calls h h = []"
  by (simp add: new_calls_def)

lemma new_calls_append: "spawned h' = spawned h @ cs \<Longrightarrow> new_calls h h' = cs"
  by (simp add: new_calls_def)

section \<open>Properties of removing old kernels\<close>

lemma select_old_not_current: "k \<in> set (select_old keep_count kept ks) \<Longrightarrow> \<not> k_current k"
  by (induction ks arbitrary: kept) (auto split: if_splits)

lemma select_old_drop:
  "select_old keep_count kept ks =
     drop (nat (keep_count - kept)) (filter (\<lambda>k. \<not> k_current k) ks)"
proof (induction ks arbitrary: kept)
  case Nil
  show ?case by simp
next
  case (Cons k ks)
  show ?case
  proof (cases "k_current k")
    case True
    then show ?thesis using Cons.IH [of kept] by simp
  next
    case False
    show ?thesis
    proof (cases "kept < keep_count")
      case True
      then obtain m where m: "nat (keep_count - kept) = Suc m"
        by (cases "nat (keep_count - kept)") auto
      then have "nat (keep_count - (kept + 1)) = m" by linarith
      then show ?thesis using Cons.IH [of "kept + 1"] False True m by simp
    next
      case ge: False
      then have "nat (keep_count - kept) = 0" by simp
      then show ?thesis using Cons.IH [of kept] False ge by simp
    qed
  qed
qed

lemma select_old_length:
  assumes "0 \<le> keep_count"
  shows "int (length (select_old keep_count 0 ks)) =
           max 0 (int (length (filter (\<lambda>k. \<not> k_current k) ks)) - keep_count)"
  using assms by (simp add: select_old_drop)

lemma select_old_subset: "set (select_old keep_count kept ks) \<subseteq> set ks"
  by (induction ks arbitrary: kept) (auto split: if_splits)

lemma host_at_0: "host_at opsys calls h 0 = h"
  by (simp add: host_at_def)

lemma host_at_Suc:
  "host_at opsys (c # calls) h (Suc i) = host_at opsys calls (host_after opsys c h) i"
  by (simp add: host_at_def)

lemma outcome_at_0: "outcome_at opsys (c # calls) h 0 = fst (opsys c h)"
  by (simp add: outcome_at_def host_at_0)

lemma outcome_at_Suc:
  "outcome_at opsys (c # calls) h (Suc i) = outcome_at opsys calls (host_after opsys c h) i"
  by (simp add: outcome_at_def host_at_Suc)

text \<open>
  The second loop runs the calls in order and stops at the first one whose reported return
  code is not 0; \<open>j\<close> is the number of calls that succeeded before it.
\<close>

lemma remove_kernels_run:
  "\<exists>j \<le> length ks.
     (\<forall>i < j. reported_code (outcome_at opsys (removal_calls pm password ks) h i) = 0) \<and>
     (if j < length ks
      then reported_code (outcome_at opsys (removal_calls pm password ks) h j) \<noteq> 0 \<and>
           remove_kernels opsys pm password ks h =
             (Some (''Failed to remove kernel '' @ k_version (ks ! j) @ '': ''
                    @ reported_err (outcome_at opsys (removal_calls pm password ks) h j)),
              host_at opsys (removal_calls pm password ks) h (Suc j))
      else remove_kernels opsys pm password ks h =
             (None, host_at opsys (removal_calls pm password ks) h (length ks)))"
proof (induction ks arbitrary: h)
  case Nil
  show ?case by (simp add: removal_calls_def host_at_0)
next
  case (Cons k ks)
  define c where "c = sudo_call (kernel_remove_cmd pm (k_version k)) password"
  define r where "r = fst (opsys c h)"
  have calls: "removal_calls pm password (k # ks) = c # removal_calls pm password ks"
    by (simp add: removal_calls_def c_def)
  have run: "run_sudo_command opsys (kernel_remove_cmd pm (k_version k)) password h =
      (((case r of Completed out err rc \<Rightarrow> strip out | TimeoutExpired \<Rightarrow> []
         | OtherException msg \<Rightarrow> []), reported_err r, reported_code r), host_after opsys c h)"
    unfolding r_def c_def by (rule run_sudo_command_eq)
  show ?case
  proof (cases "reported_code r = 0")
    case False
    have "remove_kernels opsys pm password (k # ks) h =
            (Some (''Failed to remove kernel '' @ k_version k @ '': '' @ reported_err r),
             host_after opsys c h)"
      using False by (simp add: run)
    then show ?thesis
      using False
      by (intro exI [of _ 0]) (simp add: calls outcome_at_0 host_at_Suc host_at_0 r_def)
  next
    case True
    obtain j where j: "j \<le> length ks"
      and ok: "\<forall>i < j. reported_code
                 (outcome_at opsys (removal_calls pm password ks) (host_after opsys c h) i) = 0"
      and res: "if j < length ks
        then reported_code
               (outcome_at opsys (removal_calls pm password ks) (host_after opsys c h) j) \<noteq> 0 \<and>
             remove_kernels opsys pm password ks (host_after opsys c h) =
               (Some (''Failed to remove kernel '' @ k_version (ks ! j) @ '': ''
                      @ reported_err
                          (outcome_at opsys (removal_calls pm password ks) (host_after opsys c h) j)),
                host_at opsys (removal_calls pm password ks) (host_after opsys c h) (Suc j))
        else remove_kernels opsys pm password ks (host_after opsys c h) =
               (None, host_at opsys (removal_calls pm password ks) (host_after opsys c h)
                        (length ks))"
      using Cons.IH [of "host_after opsys c h"] by blast
    have step: "remove_kernels opsys pm password (k # ks) h =
                  remove_kernels opsys pm password ks (host_after opsys c h)"
      using True by (simp add: run)
    have all: "\<forall>i < Suc j. reported_code
                 (outcome_at opsys (removal_calls pm password (k # ks)) h i) = 0"
    proof (intro allI impI)
      fix i assume "i < Suc j"
      then show "reported_code (outcome_at opsys (removal_calls pm password (k # ks)) h i) = 0"
        using True ok by (cases i) (simp_all add: calls outcome_at_0 outcome_at_Suc r_def)
    qed
    show ?thesis
    proof (intro exI [of _ "Suc j"] conjI)
      show "Suc j \<le> length (k # ks)" using j by simp
      show "\<forall>i < Suc j. reported_code
                 (outcome_at opsys (removal_calls pm password (k # ks)) h i) = 0"
        by (rule all)
      show "if Suc j < length (k # ks)
        then reported_code (outcome_at opsys (removal_calls pm password (k # ks)) h (Suc j)) \<noteq> 0 \<and>
             remove_kernels opsys pm password (k # ks) h =
               (Some (''Failed to remove kernel '' @ k_version ((k # ks) ! Suc j) @ '': ''
                      @ reported_err
                          (outcome_at opsys (removal_calls pm password (k # ks)) h (Suc j))),
                host_at opsys (removal_calls pm password (k # ks)) h (Suc (Suc j)))
        else remove_kernels opsys pm password (k # ks) h =
               (None, host_at opsys (removal_calls pm password (k # ks)) h (length (k # ks)))"
        unfolding step calls outcome_at_Suc host_at_Suc using res by (simp add: host_at_Suc)
    qed
  qed
qed

lemma update_grub_host:
  "snd (update_grub opsys password h) = host_after opsys (sudo_call ''update-grub'' password) h"
  by (simp add: update_grub_def run_sudo_command_eq)

lemma remove_old_kernels_run:
  "\<exists>j \<le> length (select_old keep_count 0 kernels).
     (\<forall>i < j. reported_code
        (outcome_at opsys (removal_calls pm password (select_old keep_count 0 kernels)) h i) = 0) \<and>
     (if j < length (select_old keep_count 0 kernels)
      then reported_code
             (outcome_at opsys (removal_calls pm password (select_old keep_count 0 kernels)) h j)
             \<noteq> 0 \<and>
           remove_old_kernels opsys pm kernels keep_count password h =
             ((False, ''Failed to remove kernel ''
                      @ k_version (select_old keep_count 0 kernels ! j) @ '': ''
                      @ reported_err
                          (outcome_at opsys
                             (removal_calls pm password (select_old keep_count 0 kernels)) h j)),
              host_at opsys (removal_calls pm password (select_old keep_count 0 kernels)) h (Suc j))
      else remove_old_kernels opsys pm kernels keep_count password h =
             ((True, if select_old keep_count 0 kernels = [] then ''No old kernels to remove''
                     else ''Removed '' @ str_nat (length (select_old keep_count 0 kernels))
                          @ '' old kernels''),
              if pm = Some ''apt'' \<and> select_old keep_count 0 kernels \<noteq> []
              then host_after opsys (sudo_call ''update-grub'' password)
                     (host_at opsys (removal_calls pm password (select_old keep_count 0 kernels)) h
                        (length (select_old keep_count 0 kernels)))
              else host_at opsys (removal_calls pm password (select_old keep_count 0 kernels)) h
                     (length (select_old keep_count 0 kernels))))"
proof -
  define ks where "ks = select_old keep_count 0 kernels"
  obtain j where j: "j \<le> length ks"
    and ok: "\<forall>i < j. reported_code (outcome_at opsys (removal_calls pm password ks) h i) = 0"
    and res: "if j < length ks
      then reported_code (outcome_at opsys (removal_calls pm password ks) h j) \<noteq> 0 \<and>
           remove_kernels opsys pm password ks h =
             (Some (''Failed to remove kernel '' @ k_version (ks ! j) @ '': ''
                    @ reported_err (outcome_at opsys (removal_calls pm password ks) h j)),
              host_at opsys (removal_calls pm password ks) h (Suc j))
      else remove_kernels opsys pm password ks h =
             (None, host_at opsys (removal_calls pm password ks) h (length ks))"
    using remove_kernels_run [of ks opsys pm password h] by blast
  have "if j < length ks
      then reported_code (outcome_at opsys (removal_calls pm password ks) h j) \<noteq> 0 \<and>
           remove_old_kernels opsys pm kernels keep_count password h =
             ((False, ''Failed to remove kernel '' @ k_version (ks ! j) @ '': ''
                      @ reported_err (outcome_at opsys (removal_calls pm password ks) h j)),
              host_at opsys (removal_calls pm password ks) h (Suc j))
      else remove_old_kernels opsys pm kernels keep_count password h =
             ((True, if ks = [] then ''No old kernels to remove''
                     else ''Removed '' @ str_nat (length ks) @ '' old kernels''),
              if pm = Some ''apt'' \<and> ks \<noteq> []
              then host_after opsys (sudo_call ''update-grub'' password)
                     (host_at opsys (removal_calls pm password ks) h (length ks))
              else host_at opsys (removal_calls pm password ks) h (length ks))"
  proof (cases "ks = []")
    case True
    then show ?thesis
      using j by (simp add: remove_old_kernels_def ks_def [symmetric] host_at_0)
  next
    case False
    then show ?thesis
      using res
      by (simp add: remove_old_kernels_def ks_def [symmetric] update_grub_host
          split: if_splits)
  qed
  then show ?thesis using j ok unfolding ks_def by blast
qed

text \<open>
  Claim C3, as stated, fails: \<^verbatim>\<open>remove_old_kernels\<close> stops at the first removal command
  that fails. With one kernel to keep, the list below has three kernels that are not
  current, so that two are to be removed; on a system that refuses to remove the first of
  them the function runs that one command, reports the failure, and removes neither.
\<close>

theorem remove_old_kernels_stops_counterexample:
  "max 0 (int (length (filter (\<lambda>k. \<not> k_current k) kernels_demo)) - 1) = 2 \<and>
   fst (remove_old_kernels (os_dnf_protecting ''6.8.0-40'') (Some ''dnf'') kernels_demo 1 None
          host_boot) =
     (False, ''Failed to remove kernel 6.8.0-40: Error: kernel-6.8.0-40 is protected'') \<and>
   map sc_cmd (spawned (snd (remove_old_kernels (os_dnf_protecting ''6.8.0-40'') (Some ''dnf'')
                               kernels_demo 1 None host_boot))) =
     [''sudo dnf remove -y kernel-6.8.0-40''] \<and>
   files (snd (remove_old_kernels (os_dnf_protecting ''6.8.0-40'') (Some ''dnf'') kernels_demo 1
                 None host_boot)) ''/boot/vmlinuz-6.8.0-40'' = Some [] \<and>
   files (snd (remove_old_kernels (os_dnf_protecting ''6.8.0-40'') (Some ''dnf'') kernels_demo 1
                 None host_boot)) ''/boot/vmlinuz-6.5.0-9'' = Some []"
  by (simp add: remove_old_kernels_def kernels_demo_def run_sudo_command_eq sudo_call_def
      sudo_cmd_def kernel_remove_cmd_def os_dnf_protecting_def host_after_def host_boot_def
      host_empty_def reported_err_def reported_code_def startswith_def strip_def is_space_def)

text \<open>
  Claim C3, amended. For every list of installed kernels and every \<open>keep_count \<ge> 0\<close>, the
  removal set \<^verbatim>\<open>to_remove\<close> of \<^verbatim>\<open>remove_old_kernels\<close> is the list of the kernels not
  marked current without its first \<open>keep_count\<close> members: it never holds a kernel marked
  current, and it holds exactly \<open>max 0 (n - keep_count)\<close> kernels, where \<open>n\<close> is the number
  of kernels not marked current. The function runs the removal command of each kernel of
  that set, in order, and stops at the first command whose return code is not 0: with
  \<open>j\<close> the number of commands that succeeded, it then returns \<^verbatim>\<open>False\<close> with the
  message \<^verbatim>\<open>Failed to remove kernel <version>: <stderr>\<close> for kernel number \<open>j\<close>, and the
  host is the one after these \<open>j + 1\<close> commands, so that no later kernel is removed. Only
  when every command succeeds have all kernels of the set been removed; the function then
  returns \<^verbatim>\<open>True\<close>, and on apt it has run \<^verbatim>\<open>update-grub\<close> after the last removal.
\<close>

theorem remove_old_kernels_stops_at_failure:
  assumes "0 \<le> keep_count"
  shows
    "(let to_remove = select_old keep_count 0 kernels;
          calls = removal_calls pm password to_remove;
          result = remove_old_kernels opsys pm kernels keep_count password h
      in to_remove = drop (nat keep_count) (filter (\<lambda>k. \<not> k_current k) kernels) \<and>
         (\<forall>k \<in> set to_remove. k \<in> set kernels \<and> \<not> k_current k) \<and>
         int (length to_remove) =
           max 0 (int (length (filter (\<lambda>k. \<not> k_current k) kernels)) - keep_count) \<and>
         (\<exists>j \<le> length to_remove.
            (\<forall>i < j. reported_code (outcome_at opsys calls h i) = 0) \<and>
            (if j < length to_remove
             then reported_code (outcome_at opsys calls h j) \<noteq> 0 \<and>
                  result =
                    ((False, ''Failed to remove kernel '' @ k_version (to_remove ! j) @ '': ''
                             @ reported_err (outcome_at opsys calls h j)),
                     host_at opsys calls h (Suc j))
             else result =
                    ((True, if to_remove = [] then ''No old kernels to remove''
                            else ''Removed '' @ str_nat (length to_remove) @ '' old kernels''),
                     if pm = Some ''apt'' \<and> to_remove \<noteq> []
                     then host_after opsys (sudo_call ''update-grub'' password)
                            (host_at opsys calls h (length to_remove))
                     else host_at opsys calls h (length to_remove)))))"
  unfolding Let_def
proof (intro conjI ballI)
  show "select_old keep_count 0 kernels =
          drop (nat keep_count) (filter (\<lambda>k. \<not> k_current k) kernels)"
    by (simp add: select_old_drop)
next
  fix k assume "k \<in> set (select_old keep_count 0 kernels)"
  then show "k \<in> set kernels" using select_old_subset by blast
next
  fix k assume "k \<in> set (select_old keep_count 0 kernels)"
  then show "\<not> k_current k" by (rule select_old_not_current)
next
  show "int (length (select_old keep_count 0 kernels)) =
           max 0 (int (length (filter (\<lambda>k. \<not> k_current k) kernels)) - keep_count)"
    using assms by (rule select_old_length)
next
  show "\<exists>j \<le> length (select_old keep_count 0 kernels).
     (\<forall>i < j. reported_code
        (outcome_at opsys (removal_calls pm password (select_old keep_count 0 kernels)) h i) = 0) \<and>
     (if j < length (select_old keep_count 0 kernels)
      then reported_code
             (outcome_at opsys (removal_calls pm password (select_old keep_count 0 kernels)) h j)
             \<noteq> 0 \<and>
           remove_old_kernels opsys pm kernels keep_count password h =
             ((False, ''Failed to remove kernel ''
                      @ k_version (select_old keep_count 0 kernels ! j) @ '': ''
                      @ reported_err
                          (outcome_at opsys
                             (removal_calls pm password (select_old keep_count 0 kernels)) h j)),
              host_at opsys (removal_calls pm password (select_old keep_count 0 kernels)) h (Suc j))
      else remove_old_kernels opsys pm kernels keep_count password h =
             ((True, if select_old keep_count 0 kernels = [] then ''No old kernels to remove''
                     else ''Removed '' @ str_nat (length (select_old keep_count 0 kernels))
                          @ '' old kernels''),
              if pm = Some ''apt'' \<and> select_old keep_count 0 kernels \<noteq> []
              then host_after opsys (sudo_call ''update-grub'' password)
                     (host_at opsys (removal_calls pm password (select_old keep_count 0 kernels)) h
                        (length (select_old keep_count 0 kernels)))
              else host_at opsys (removal_calls pm password (select_old keep_count 0 kernels)) h
                     (length (select_old keep_count 0 kernels))))"
    by (rule remove_old_kernels_run)
qed

theorem remove_old_kernels_stops_at_failure_witness:
  "(0::int) \<le> 1 \<and>
   map k_version (select_old 1 0 kernels_demo) = [''6.8.0-40'', ''6.5.0-9''] \<and>
   fst (remove_old_kernels (os_dnf_protecting ''6.5.0-9'') (Some ''dnf'') kernels_demo 1 None
          host_boot) =
     (False, ''Failed to remove kernel 6.5.0-9: Error: kernel-6.5.0-9 is protected'') \<and>
   files (snd (remove_old_kernels (os_dnf_protecting ''6.5.0-9'') (Some ''dnf'') kernels_demo 1
                 None host_boot)) ''/boot/vmlinuz-6.8.0-40'' = None \<and>
   files (snd (remove_old_kernels (os_dnf_protecting ''6.5.0-9'') (Some ''dnf'') kernels_demo 1
                 None host_boot)) ''/boot/vmlinuz-6.5.0-9'' = Some [] \<and>
   fst (remove_old_kernels (os_dnf_protecting []) (Some ''dnf'') kernels_demo 1 None host_boot) =
     (True, ''Removed 2 old kernels'') \<and>
   files (snd (remove_old_kernels (os_dnf_protecting []) (Some ''dnf'') kernels_demo 1 None
                 host_boot)) ''/boot/vmlinuz-6.5.0-9'' = None"
proof -
  have ev: "map k_version (select_old 1 0 kernels_demo) = [''6.8.0-40'', ''6.5.0-9''] \<and>
   fst (remove_old_kernels (os_dnf_protecting ''6.5.0-9'') (Some ''dnf'') kernels_demo 1 None
          host_boot) =
     (False, ''Failed to remove kernel 6.5.0-9: Error: kernel-6.5.0-9 is protected'') \<and>
   files (snd (remove_old_kernels (os_dnf_protecting ''6.5.0-9'') (Some ''dnf'') kernels_demo 1
                 None host_boot)) ''/boot/vmlinuz-6.8.0-40'' = None \<and>
   files (snd (remove_old_kernels (os_dnf_protecting ''6.5.0-9'') (Some ''dnf'') kernels_demo 1
                 None host_boot)) ''/boot/vmlinuz-6.5.0-9'' = Some [] \<and>
   fst (remove_old_kernels (os_dnf_protecting []) (Some ''dnf'') kernels_demo 1 None host_boot) =
     (True, ''Removed 2 old kernels'') \<and>
   files (snd (remove_old_kernels (os_dnf_protecting []) (Some ''dnf'') kernels_demo 1 None
                 host_boot)) ''/boot/vmlinuz-6.5.0-9'' = None"
    by (simp add: remove_old_kernels_def kernels_demo_def run_sudo_command_eq sudo_call_def
        sudo_cmd_def kernel_remove_cmd_def os_dnf_protecting_def host_after_def host_boot_def
        host_empty_def reported_err_def reported_code_def startswith_def strip_def is_space_def
        str_nat.simps digit_char_def)
  show ?thesis
    using remove_old_kernels_stops_at_failure [of 1 kernels_demo "Some ''dnf''" None
        "os_dnf_protecting ''6.5.0-9''" host_boot] ev
    by (simp only: simp_thms)
qed

section \<open>Properties of the service status parser\<close>

lemma for_loop_append:
  "snd (for_loop body xs s) = None \<Longrightarrow>
   for_loop body (xs @ ys) s = for_loop body ys (fst (for_loop body xs s))"
  by (induction xs arbitrary: s) (auto split: sum.splits)

lemma key_startswith:
  assumes "c \<in> set l" and "takeWhile (\<lambda>x. x \<noteq> c) l = k"
  shows "startswith l (k @ [c])"
proof -
  have "dropWhile (\<lambda>x. x \<noteq> c) l \<noteq> []" using assms(1) by simp
  moreover have "hd (dropWhile (\<lambda>x. x \<noteq> c) l) = c"
    using assms(1) hd_dropWhile [of "\<lambda>x. x \<noteq> c" l] calculation by auto
  ultimately obtain r where "dropWhile (\<lambda>x. x \<noteq> c) l = c # r"
    by (cases "dropWhile (\<lambda>x. x \<noteq> c) l") auto
  then have "l = k @ c # r"
    using takeWhile_dropWhile_id [of "\<lambda>x. x \<noteq> c" l] assms(2) by simp
  then show ?thesis by (simp add: startswith_def)
qed

lemma show_line_memory_other:
  assumes "\<not> startswith l ''MemoryCurrent=''" and "show_line l st = Inr st'"
  shows "st_memory st' = st_memory st"
proof (cases "CHR ''='' \<in> set l")
  case False
  then show ?thesis using assms(2) by (simp add: show_line_def)
next
  case True
  have "takeWhile (\<lambda>x. x \<noteq> CHR ''='') l \<noteq> ''MemoryCurrent''"
    using key_startswith [OF True, of "''MemoryCurrent''"] assms(1) by auto
  then show ?thesis using assms(2) True
    by (auto simp: show_line_def Let_def split: if_splits option.splits)
qed

lemma show_line_not_set:
  "show_line ''MemoryCurrent=[not set]'' st = Inr st"
  by (simp add: show_line_def)

lemma show_line_bytes:
  "show_line ''MemoryCurrent=104857600'' st = Inr (st\<lparr>st_memory := 100\<rparr>)"
  by (simp add: show_line_def py_int_def int_strip_def int_space_def int_digits_def
      max_str_digits_def is_digit_def digit_val_def)

lemma for_loop_memory_kept:
  assumes "\<forall>l \<in> set ls. startswith l ''MemoryCurrent='' \<longrightarrow> l = ''MemoryCurrent=[not set]''"
  shows "st_memory (fst (for_loop show_line ls st)) = st_memory st"
  using assms
proof (induction ls arbitrary: st)
  case Nil
  show ?case by simp
next
  case (Cons l ls)
  show ?case
  proof (cases "show_line l st")
    case (Inl e)
    then show ?thesis by simp
  next
    case (Inr st')
    have "st_memory st' = st_memory st"
    proof (cases "startswith l ''MemoryCurrent=''")
      case True
      then have "l = ''MemoryCurrent=[not set]''" using Cons.prems by simp
      then show ?thesis using Inr show_line_not_set [of st] by simp
    next
      case False
      then show ?thesis using Inr by (rule show_line_memory_other)
    qed
    moreover have "st_memory (fst (for_loop show_line ls st')) = st_memory st'"
      using Cons.IH [of st'] Cons.prems by simp
    ultimately show ?thesis using Inr by simp
  qed
qed

lemma parse_lines_bytes:
  assumes "snd (for_loop show_line pre st) = None"
    and "\<forall>l \<in> set post. \<not> startswith l ''MemoryCurrent=''"
  shows "st_memory (fst (for_loop show_line (pre @ [''MemoryCurrent=104857600''] @ post) st)) = 100"
proof -
  define st1 where "st1 = fst (for_loop show_line pre st)"
  have "for_loop show_line (pre @ [''MemoryCurrent=104857600''] @ post) st =
          for_loop show_line ([''MemoryCurrent=104857600''] @ post) st1"
    unfolding st1_def using assms(1) by (rule for_loop_append)
  also have "\<dots> = for_loop show_line post (st1\<lparr>st_memory := 100\<rparr>)"
    by (simp add: show_line_bytes)
  finally have "st_memory (fst (for_loop show_line (pre @ [''MemoryCurrent=104857600''] @ post) st))
     = st_memory (fst (for_loop show_line post (st1\<lparr>st_memory := 100\<rparr>)))" by simp
  also have "\<dots> = st_memory (st1\<lparr>st_memory := 100\<rparr>)"
    using assms(2) by (intro for_loop_memory_kept) auto
  finally show ?thesis by simp
qed

lemma run_command_result:
  assumes "opsys \<lparr>sc_cmd = cmd, sc_shell = True, sc_timeout = 30\<rparr> h = (Completed out err rc, h')"
  shows "fst (run_command opsys cmd h) = (strip out, strip err, rc)"
  using assms by (simp add: run_command_def run_command_full_fst)

lemma get_service_status_parse:
  assumes "path_exists h ''/usr/bin/systemctl''"
    and "opsys \<lparr>sc_cmd = ''systemctl show '' @ service_name, sc_shell = True, sc_timeout = 30\<rparr> h
           = (Completed out err 0, h')"
  shows "fst (get_service_status opsys service_name h) =
           fst (for_loop show_line (split_on nl (strip out))
             (status0 service_name))"
proof -
  obtain t h1 where eq: "run_command opsys (''systemctl show '' @ service_name) h = (t, h1)"
    by (cases "run_command opsys (''systemctl show '' @ service_name) h")
  have "t = (strip out, strip err, 0)"
    using assms(2) eq
      run_command_result [where opsys = opsys and cmd = "''systemctl show '' @ service_name"
        and h = h and out = out and err = err and rc = 0 and h' = h']
    by simp
  then show ?thesis using assms(1) eq
    by (simp add: get_service_status_def parse_show_def)
qed

lemmas eval_defs = strip_def is_space_def is_digit_def digit_val_def py_int_def int_strip_def
  int_space_def int_digits_def max_str_digits_def startswith_def nl_def show_line_def

text \<open>
  \<^verbatim>\<open>int\<close> refuses a literal next to one of the code points 0x1C to 0x1F, which
  \<^verbatim>\<open>strip\<close> would remove, and a literal of more than 4300 digits; it accepts a literal
  next to a no-break space.
\<close>

lemma py_int_refuses:
  "py_int (CHR 0x1C # ''812'') = None \<and> strip (CHR 0x1C # ''812'') = ''812'' \<and>
   py_int (CHR 0xA0 # ''812'') = Some 812 \<and>
   py_int (replicate 4301 CHR ''1'') = None \<and> py_int (CHR ''-'' # replicate 4301 CHR ''0'') = None"
proof -
  have "int_strip (replicate 4301 CHR ''1'') = replicate 4301 CHR ''1''"
    by (simp add: int_strip_def int_space_def)
  moreover have "int_strip (CHR ''-'' # replicate 4301 CHR ''0'') = CHR ''-'' # replicate 4301 CHR ''0''"
  proof -
    have "dropWhile int_space (replicate 4301 CHR ''0'' @ ''-'') = replicate 4301 CHR ''0'' @ ''-''"
      by (rule dropWhile_eq_self_iff [THEN iffD2]) (simp add: int_space_def)
    then show ?thesis by (simp add: int_strip_def int_space_def)
  qed
  moreover have "replicate 4301 CHR ''1'' = CHR ''1'' # replicate 4300 CHR ''1''"
    by (simp add: replicate_Suc [symmetric] del: replicate_Suc)
  ultimately show ?thesis
    by (simp add: eval_defs)
qed

text \<open>
  Claim C5, as stated, fails: an output that contains the line
  \<^verbatim>\<open>MemoryCurrent=104857600\<close> does not give the memory 100 when an earlier line raises
  (here \<^verbatim>\<open>MainPID=n/a\<close>: the loop ends there and the memory stays 0) or when a later
  line sets \<^verbatim>\<open>MemoryCurrent\<close> again; and an output that contains
  \<^verbatim>\<open>MemoryCurrent=[not set]\<close> does not give the memory 0 when another line sets it.
\<close>

theorem service_memory_counterexample:
  "st_memory (fst (get_service_status
       (os_const (Completed (''MainPID=n/a'' @ [nl] @ ''MemoryCurrent=104857600'') [] 0))
       ''nginx'' host_systemd)) = 0 \<and>
   st_memory (fst (get_service_status
       (os_const (Completed (''MemoryCurrent=104857600'' @ [nl] @ ''MemoryCurrent=2097152'') [] 0))
       ''nginx'' host_systemd)) = 2 \<and>
   st_memory (fst (get_service_status
       (os_const (Completed (''MemoryCurrent=[not set]'' @ [nl] @ ''MemoryCurrent=2097152'') [] 0))
       ''nginx'' host_systemd)) = 2"
  by (simp add: get_service_status_def path_exists_def host_systemd_def host_empty_def
      run_command_def run_command_full_def subprocess_run_def os_const_def parse_show_def
      status0_def eval_defs)

text \<open>
  Claim C5, amended. When \<^verbatim>\<open>systemctl show\<close> succeeds and its output has the line
  \<^verbatim>\<open>MemoryCurrent=104857600\<close>, no earlier line raising an exception and no later line
  beginning with \<^verbatim>\<open>MemoryCurrent=\<close>, the memory field of the status is 100 (bytes divided
  by 1024 twice). When every line of the output that begins with \<^verbatim>\<open>MemoryCurrent=\<close> is
  \<^verbatim>\<open>MemoryCurrent=[not set]\<close>, the memory field is 0. In both cases the function returns
  its status whatever the other lines hold: a line that raises ends the parsing and is
  not an error of the call.
\<close>

theorem service_memory_in_megabytes:
  assumes "path_exists h ''/usr/bin/systemctl''"
    and "opsys \<lparr>sc_cmd = ''systemctl show '' @ service_name, sc_shell = True, sc_timeout = 30\<rparr> h
           = (Completed out err 0, h')"
  shows "(split_on nl (strip out) = pre @ [''MemoryCurrent=104857600''] @ post \<and>
          snd (for_loop show_line pre (status0 service_name)) = None \<and>
          (\<forall>l \<in> set post. \<not> startswith l ''MemoryCurrent='')
          \<longrightarrow> st_memory (fst (get_service_status opsys service_name h)) = 100) \<and>
         ((\<forall>l \<in> set (split_on nl (strip out)).
              startswith l ''MemoryCurrent='' \<longrightarrow> l = ''MemoryCurrent=[not set]'')
          \<longrightarrow> st_memory (fst (get_service_status opsys service_name h)) = 0)"
proof (intro conjI impI)
  note parse = get_service_status_parse [where opsys = opsys and h = h and out = out
      and err = err and h' = h' and service_name = service_name, OF assms]
  assume a: "split_on nl (strip out) = pre @ [''MemoryCurrent=104857600''] @ post \<and>
          snd (for_loop show_line pre (status0 service_name)) = None \<and>
          (\<forall>l \<in> set post. \<not> startswith l ''MemoryCurrent='')"
  then show "st_memory (fst (get_service_status opsys service_name h)) = 100"
    using parse_lines_bytes [of pre "status0 service_name" post]
    by (simp add: parse)
next
  note parse = get_service_status_parse [where opsys = opsys and h = h and out = out
      and err = err and h' = h' and service_name = service_name, OF assms]
  assume "\<forall>l \<in> set (split_on nl (strip out)).
              startswith l ''MemoryCurrent='' \<longrightarrow> l = ''MemoryCurrent=[not set]''"
  then have "st_memory (fst (for_loop show_line (split_on nl (strip out)) (status0 service_name)))
               = st_memory (status0 service_name)"
    by (rule for_loop_memory_kept)
  then show "st_memory (fst (get_service_status opsys service_name h)) = 0"
    by (simp add: parse status0_def)
qed

theorem service_memory_in_megabytes_witness:
  "path_exists host_systemd ''/usr/bin/systemctl'' \<and>
   st_memory (fst (get_service_status (os_const (Completed (show_fixture ''104857600'') [] 0))
                     ''nginx'' host_systemd)) = 100 \<and>
   st_memory (fst (get_service_status (os_const (Completed (show_fixture ''[not set]'') [] 0))
                     ''nginx'' host_systemd)) = 0"
proof -
  have ex: "path_exists host_systemd ''/usr/bin/systemctl''"
    by (simp add: path_exists_def host_systemd_def host_empty_def)
  have r1: "os_const (Completed (show_fixture ''104857600'') [] 0)
              \<lparr>sc_cmd = ''systemctl show '' @ ''nginx'', sc_shell = True, sc_timeout = 30\<rparr>
              host_systemd = (Completed (show_fixture ''104857600'') [] 0, host_systemd)"
    by (simp add: os_const_def)
  have r2: "os_const (Completed (show_fixture ''[not set]'') [] 0)
              \<lparr>sc_cmd = ''systemctl show '' @ ''nginx'', sc_shell = True, sc_timeout = 30\<rparr>
              host_systemd = (Completed (show_fixture ''[not set]'') [] 0, host_systemd)"
    by (simp add: os_const_def)
  have s1: "split_on nl (strip (show_fixture ''104857600'')) =
              [''LoadState=loaded'', ''ActiveState=active'', ''MainPID=812'']
              @ [''MemoryCurrent=104857600''] @ [''TasksCurrent=5'', ''UnitFileState=enabled'']"
    by (simp add: show_fixture_def strip_def is_space_def nl_def)
  have p1: "snd (for_loop show_line [''LoadState=loaded'', ''ActiveState=active'', ''MainPID=812'']
                   (status0 ''nginx'')) = None"
    by (simp add: eval_defs)
  have q1: "\<forall>l \<in> set [''TasksCurrent=5'', ''UnitFileState=enabled''].
              \<not> startswith l ''MemoryCurrent=''"
    by (simp add: startswith_def)
  have s2: "\<forall>l \<in> set (split_on nl (strip (show_fixture ''[not set]''))).
              startswith l ''MemoryCurrent='' \<longrightarrow> l = ''MemoryCurrent=[not set]''"
    by (simp add: show_fixture_def strip_def is_space_def nl_def startswith_def)
  have "st_memory (fst (get_service_status (os_const (Completed (show_fixture ''104857600'') [] 0))
                     ''nginx'' host_systemd)) = 100"
    using service_memory_in_megabytes [where opsys = "os_const (Completed (show_fixture ''104857600'') [] 0)"
        and h = host_systemd and service_name = "''nginx''" and out = "show_fixture ''104857600''"
        and err = "[]" and h' = host_systemd
        and pre = "[''LoadState=loaded'', ''ActiveState=active'', ''MainPID=812'']"
        and post = "[''TasksCurrent=5'', ''UnitFileState=enabled'']", OF ex r1]
      s1 p1 q1 by blast
  moreover have "st_memory (fst (get_service_status (os_const (Completed (show_fixture ''[not set]'') [] 0))
                     ''nginx'' host_systemd)) = 0"
    using service_memory_in_megabytes [where opsys = "os_const (Completed (show_fixture ''[not set]'') [] 0)"
        and h = host_systemd and service_name = "''nginx''" and out = "show_fixture ''[not set]''"
        and err = "[]" and h' = host_systemd, OF ex r2]
      s2 by blast
  ultimately show ?thesis using ex by simp
qed

section \<open>Properties of command construction\<close>

lemma only_shell_refl: "only_shell_calls h h"
  by (simp add: only_shell_calls_def new_calls_def)

lemma only_shell_step:
  assumes "only_shell_calls h h1" and "spawned h2 = spawned h1 @ [c]" and "sc_shell c"
  shows "only_shell_calls h h2"
proof -
  have le: "length (spawned h) \<le> length (spawned h1)"
    using assms(1) unfolding only_shell_calls_def
    by (metis length_take min.cobounded1)
  then show ?thesis
    using assms unfolding only_shell_calls_def new_calls_def by simp
qed

lemma only_shell_sudo:
  "only_shell_calls h h1 \<Longrightarrow>
   only_shell_calls h (snd (run_sudo_command opsys cmd pw h1)) = True"
  using only_shell_step [of h h1 "snd (run_sudo_command opsys cmd pw h1)"]
    run_sudo_command_spawned [of opsys cmd pw h1] by simp

lemma only_shell_run:
  "only_shell_calls h h1 \<Longrightarrow> only_shell_calls h (snd (run_command opsys cmd h1)) = True"
  using only_shell_step [of h h1 "snd (run_command opsys cmd h1)"]
    run_command_spawned [of opsys cmd h1] by simp

lemma add_repository_shell:
  "only_shell_calls h (snd (add_repository opsys pm now repo_url repo_name password h))"
  by (simp add: add_repository_def Let_def split_beta only_shell_refl only_shell_sudo)

lemma install_package_shell:
  "only_shell_calls h (snd (install_package opsys manager package password h))"
  by (simp add: install_package_def Let_def split_beta only_shell_refl only_shell_sudo
      only_shell_run split: option.splits)

lemma toggle_apt_files_shell:
  "only_shell_calls h0 h \<Longrightarrow>
   only_shell_calls h0 (snd (toggle_apt_files opsys repo_name enable password fs h))"
  by (induction fs)
     (simp_all add: Let_def split_beta only_shell_sudo split: option.splits)

lemma toggle_repository_shell:
  "only_shell_calls h (snd (toggle_repository opsys pm repo_name enable password h))"
  by (simp add: toggle_repository_def Let_def split_beta only_shell_refl only_shell_sudo
      toggle_apt_files_shell)

lemma remove_kernels_shell:
  "only_shell_calls h0 h \<Longrightarrow>
   only_shell_calls h0 (snd (remove_kernels opsys pm password ks h))"
  by (induction ks arbitrary: h) (simp_all add: Let_def split_beta only_shell_sudo)

lemma remove_old_kernels_shell:
  "only_shell_calls h (snd (remove_old_kernels opsys pm kernels keep_count password h))"
  by (simp add: remove_old_kernels_def update_grub_def Let_def split_beta only_shell_refl
      only_shell_sudo remove_kernels_shell split: option.splits)

lemma add_repository_dnf:
  "new_calls h (snd (add_repository opsys (Some ''dnf'') now repo_url repo_name password h)) =
     [\<lparr>sc_cmd = sudo_cmd (''dnf config-manager --add-repo '' @ repo_url) password,
       sc_shell = True, sc_timeout = 30\<rparr>]"
proof -
  have "spawned (snd (add_repository opsys (Some ''dnf'') now repo_url repo_name password h)) =
          spawned h @ [\<lparr>sc_cmd = sudo_cmd (''dnf config-manager --add-repo '' @ repo_url) password,
                         sc_shell = True, sc_timeout = 30\<rparr>]"
    using run_sudo_command_spawned [of opsys "''dnf config-manager --add-repo '' @ repo_url"
        password h]
    by (simp add: add_repository_def Let_def split_beta)
  then show ?thesis by (rule new_calls_append)
qed

text \<open>
  Claim C2, as stated, fails: \<^verbatim>\<open>add_repository\<close> on a dnf system puts the URL it is
  given into one command text and spawns it through the shell, so that the text after
  the semicolon of the URL below is a second shell command.
\<close>

theorem add_repository_shell_counterexample:
  "new_calls host_empty
     (snd (add_repository (os_const (Completed [] [] 0)) (Some ''dnf'') 0
             ''http://repo.example/x; reboot'' None None host_empty)) =
   [\<lparr>sc_cmd = ''sudo dnf config-manager --add-repo http://repo.example/x; reboot'',
     sc_shell = True, sc_timeout = 30\<rparr>]"
  by (simp add: add_repository_dnf sudo_cmd_def)

text \<open>
  Claim C2, amended. Every command is one text, built by string interpolation and given to
  \<^verbatim>\<open>run_command\<close>, which spawns it through the shell with the default timeout:
  \<^verbatim>\<open>run_command\<close> and \<^verbatim>\<open>run_sudo_command\<close> make exactly that one call, and every
  call made by \<^verbatim>\<open>add_repository\<close>, \<^verbatim>\<open>toggle_repository\<close>, \<^verbatim>\<open>install_package\<close> and
  \<^verbatim>\<open>remove_old_kernels\<close> goes through the shell. On dnf, \<^verbatim>\<open>add_repository\<close> runs the
  text \<^verbatim>\<open>dnf config-manager --add-repo\<close> followed by the URL as it was given.
\<close>

theorem commands_are_shell_strings:
  "new_calls h (snd (run_command opsys cmd h)) =
     [\<lparr>sc_cmd = cmd, sc_shell = True, sc_timeout = 30\<rparr>] \<and>
   new_calls h (snd (run_sudo_command opsys cmd password h)) =
     [\<lparr>sc_cmd = sudo_cmd cmd password, sc_shell = True, sc_timeout = 30\<rparr>] \<and>
   only_shell_calls h (snd (add_repository opsys pm now repo_url repo_name password h)) \<and>
   only_shell_calls h (snd (toggle_repository opsys pm repo_name' enable password h)) \<and>
   only_shell_calls h (snd (install_package opsys pm package password h)) \<and>
   only_shell_calls h (snd (remove_old_kernels opsys pm kernels keep_count password h)) \<and>
   new_calls h (snd (add_repository opsys (Some ''dnf'') now repo_url repo_name password h)) =
     [\<lparr>sc_cmd = sudo_cmd (''dnf config-manager --add-repo '' @ repo_url) password,
       sc_shell = True, sc_timeout = 30\<rparr>]"
proof (intro conjI)
  show "new_calls h (snd (run_command opsys cmd h)) =
     [\<lparr>sc_cmd = cmd, sc_shell = True, sc_timeout = 30\<rparr>]"
    by (rule new_calls_append) (rule run_command_spawned)
  show "new_calls h (snd (run_sudo_command opsys cmd password h)) =
     [\<lparr>sc_cmd = sudo_cmd cmd password, sc_shell = True, sc_timeout = 30\<rparr>]"
    by (rule new_calls_append) (rule run_sudo_command_spawned)
qed (rule add_repository_shell toggle_repository_shell install_package_shell
      remove_old_kernels_shell add_repository_dnf)+

theorem commands_are_shell_strings_witness:
  "only_shell_calls host_empty
     (snd (install_package (os_const (Completed [] [] 0)) (Some ''apt'') ''vim; reboot'' None
             host_empty)) \<and>
   new_calls host_empty
     (snd (add_repository (os_const (Completed [] [] 0)) (Some ''dnf'') 0
             ''http://repo.example/x'' None None host_empty)) =
   [\<lparr>sc_cmd = ''sudo dnf config-manager --add-repo http://repo.example/x'',
     sc_shell = True, sc_timeout = 30\<rparr>]"
  using commands_are_shell_strings [of host_empty "os_const (Completed [] [] 0)" "[]" None
      "Some ''apt''" 0 "''http://repo.example/x''" None "[]" True "''vim; reboot''" "[]" 0]
  by (simp add: sudo_cmd_def)

section \<open>Properties of system detection\<close>










section \<open>Properties of the output parsers\<close>

lemma parse_installed_line_total: "\<not> isl (parse_installed_line manager line)"
  by (simp add: parse_installed_line_def Let_def py_nth_def)

lemma parse_installed_lines_concat:
  "parse_installed_lines manager ls packages =
     Inr (packages @ concat (map (\<lambda>l. projr (parse_installed_line manager l)) ls))"
proof (induction ls arbitrary: packages)
  case Nil
  show ?case by simp
next
  case (Cons l ls)
  obtain ps where ps: "parse_installed_line manager l = Inr ps"
    using parse_installed_line_total [of manager l]
    by (cases "parse_installed_line manager l") auto
  show ?case using Cons.IH [of "packages @ ps"] by (simp add: ps)
qed

lemma for_loop_stops:
  assumes "snd (for_loop body pre s) = None"
    and "body bad (fst (for_loop body pre s)) = Inl e"
  shows "for_loop body (pre @ [bad] @ post) s = (fst (for_loop body pre s), Some e)"
  using assms for_loop_append [of body pre s "[bad] @ post"] by simp

lemma get_boot_config_systemd_boot:
  assumes "\<not> path_exists h ''/boot/grub/grub.cfg''"
    and "files h ''/boot/loader/loader.conf'' = Some content"
  shows "get_boot_config opsys ''Linux'' h =
     (case for_loop loader_conf_line (readlines content)
             \<lparr>bc_bootloader = ''systemd-boot'', bc_default_entry = ''Unknown'',
                 bc_timeout = 0, bc_entries = []\<rparr> of
        (config2, Some e) \<Rightarrow> (config2, h)
      | (config2, None) \<Rightarrow>
          (if path_exists h ''/boot/loader/entries'' then
             (case listdir h ''/boot/loader/entries'' of
                None \<Rightarrow> (config2, h)
              | Some names \<Rightarrow>
                  (config2\<lparr>bc_entries := bc_entries config2 @ entry_names names\<rparr>, h))
           else (config2, h)))"
proof -
  have ex: "path_exists h ''/boot/loader/loader.conf''"
    using assms(2) by (simp add: path_exists_def)
  show ?thesis
    unfolding get_boot_config_def Let_def
    by (simp only: assms ex if_True if_False refl option.case boot_config.simps)
qed

text \<open>
  Claim C9, as stated, fails. In \<^verbatim>\<open>get_boot_config\<close> a \<^verbatim>\<open>timeout\<close> line of
  \<^verbatim>\<open>loader.conf\<close> whose value is not a number ends the parsing; the line after it is
  not read and no boot entry is listed, while the same file without that line gives the
  default entry and both boot entries. The listing of \<^verbatim>\<open>get_repositories\<close> on dnf
  raises \<^verbatim>\<open>IndexError\<close> for an output line that holds \<^verbatim>\<open>Repo-id\<close> and no colon. No
  parser counts the lines it skips.
\<close>

theorem boot_config_parse_aborts_counterexample:
  "fst (get_boot_config (os_const (Completed [] [] 0)) ''Linux''
          (host_systemd_boot (''timeout menu-force'' @ [nl] @ ''default arch.conf'' @ [nl]))) =
     \<lparr>bc_bootloader = ''systemd-boot'', bc_default_entry = ''Unknown'', bc_timeout = 0,
      bc_entries = []\<rparr> \<and>
   fst (get_boot_config (os_const (Completed [] [] 0)) ''Linux''
          (host_systemd_boot (''default arch.conf'' @ [nl]))) =
     \<lparr>bc_bootloader = ''systemd-boot'', bc_default_entry = ''arch.conf'', bc_timeout = 0,
      bc_entries = [''arch'', ''arch-fallback'']\<rparr> \<and>
   fst (get_repositories (os_const (Completed ''Repo-id'' [] 0)) (Some ''dnf'') host_empty) =
     Inl IndexError"
  by (simp add: get_boot_config_def host_systemd_boot_def host_empty_def path_exists_def
      readlines_def nl_def cr_def loader_conf_line_def strip_def is_space_def startswith_def
      split_ws_def py_nth_def py_int_def int_strip_def int_space_def int_digits_def
      max_str_digits_def is_digit_def entry_names_def endswith_def get_repositories_def
      command_repos_def run_command_def run_command_full_def subprocess_run_def os_const_def
      dnf_repo_line_def split_once_def)

text \<open>
  Claim C9, amended, for the two parsers it names. \<^verbatim>\<open>_parse_installed_list\<close> never
  raises: each line is handled on its own, a line that does not match adds nothing and is
  not counted, and the result is the concatenation of what the lines add.
  \<^verbatim>\<open>get_boot_config\<close> returns a configuration on every path, but an exception inside
  it ends the parsing: when a line of \<^verbatim>\<open>loader.conf\<close> raises, the configuration
  returned is the one filled in from the lines before it, and neither the later lines nor
  the entries directory are read.
\<close>

theorem parsers_total_partial_results:
  assumes "\<not> path_exists h ''/boot/grub/grub.cfg''"
    and "files h ''/boot/loader/loader.conf'' = Some content"
    and "readlines content = pre @ [bad] @ post"
    and "snd (for_loop loader_conf_line pre
                \<lparr>bc_bootloader = ''systemd-boot'', bc_default_entry = ''Unknown'',
                 bc_timeout = 0, bc_entries = []\<rparr>) = None"
    and "loader_conf_line bad
           (fst (for_loop loader_conf_line pre
                \<lparr>bc_bootloader = ''systemd-boot'', bc_default_entry = ''Unknown'',
                 bc_timeout = 0, bc_entries = []\<rparr>)) = Inl e"
  shows "\<not> isl (parse_installed_line manager line) \<and>
         parse_installed_list manager raw =
           Inr (concat (map (\<lambda>l. projr (parse_installed_line manager l)) (split_on nl raw))) \<and>
         get_boot_config opsys ''Linux'' h =
           (fst (for_loop loader_conf_line pre
                \<lparr>bc_bootloader = ''systemd-boot'', bc_default_entry = ''Unknown'',
                 bc_timeout = 0, bc_entries = []\<rparr>), h)"
proof (intro conjI)
  show "\<not> isl (parse_installed_line manager line)" by (rule parse_installed_line_total)
  show "parse_installed_list manager raw =
           Inr (concat (map (\<lambda>l. projr (parse_installed_line manager l)) (split_on nl raw)))"
    by (simp add: parse_installed_list_def parse_installed_lines_concat)
  have "for_loop loader_conf_line (readlines content)
                \<lparr>bc_bootloader = ''systemd-boot'', bc_default_entry = ''Unknown'',
                 bc_timeout = 0, bc_entries = []\<rparr> =
        (fst (for_loop loader_conf_line pre
                \<lparr>bc_bootloader = ''systemd-boot'', bc_default_entry = ''Unknown'',
                 bc_timeout = 0, bc_entries = []\<rparr>), Some e)"
    unfolding assms(3) using assms(4) assms(5) by (rule for_loop_stops)
  then show "get_boot_config opsys ''Linux'' h =
           (fst (for_loop loader_conf_line pre
                \<lparr>bc_bootloader = ''systemd-boot'', bc_default_entry = ''Unknown'',
                 bc_timeout = 0, bc_entries = []\<rparr>), h)"
    by (simp only: get_boot_config_systemd_boot [OF assms(1) assms(2)] prod.case option.case)
qed

theorem parsers_total_partial_results_witness:
  "get_boot_config (os_const (Completed [] [] 0)) ''Linux''
     (host_systemd_boot (''default arch.conf'' @ [cr, nl] @ ''timeout menu-force'' @ [cr]
                         @ ''editor no'' @ [nl])) =
   (\<lparr>bc_bootloader = ''systemd-boot'', bc_default_entry = ''arch.conf'', bc_timeout = 0,
     bc_entries = []\<rparr>,
    host_systemd_boot (''default arch.conf'' @ [cr, nl] @ ''timeout menu-force'' @ [cr]
                       @ ''editor no'' @ [nl])) \<and>
   parse_installed_list (Some ''apt'')
     (''Desired=Unknown/Install'' @ [nl] @ ''ii  vim  2:9.0  amd64  Vi IMproved'' @ [nl] @ ''ii'') =
   Inr [(''vim'', ''2:9.0'', ''amd64 Vi IMproved'')]"
proof -
  let ?c = "''default arch.conf'' @ [cr, nl] @ ''timeout menu-force'' @ [cr] @ ''editor no'' @ [nl]"
  let ?out = "''Desired=Unknown/Install'' @ [nl] @ ''ii  vim  2:9.0  amd64  Vi IMproved'' @ [nl] @ ''ii''"
  have a1: "\<not> path_exists (host_systemd_boot ?c) ''/boot/grub/grub.cfg''"
    by (simp add: host_systemd_boot_def host_empty_def path_exists_def)
  have a2: "files (host_systemd_boot ?c) ''/boot/loader/loader.conf'' = Some ?c"
    by (simp add: host_systemd_boot_def host_empty_def)
  have a3: "readlines ?c = [''default arch.conf'' @ [nl]] @ [''timeout menu-force'' @ [nl]]
              @ [''editor no'' @ [nl]]"
    by (simp add: readlines_def nl_def cr_def)
  have a4: "for_loop loader_conf_line [''default arch.conf'' @ [nl]]
                \<lparr>bc_bootloader = ''systemd-boot'', bc_default_entry = ''Unknown'',
                 bc_timeout = 0, bc_entries = []\<rparr> =
            (\<lparr>bc_bootloader = ''systemd-boot'', bc_default_entry = ''arch.conf'',
                 bc_timeout = 0, bc_entries = []\<rparr>, None)"
    by (simp add: loader_conf_line_def strip_def is_space_def startswith_def split_ws_def
        py_nth_def nl_def)
  have a5: "loader_conf_line (''timeout menu-force'' @ [nl])
              \<lparr>bc_bootloader = ''systemd-boot'', bc_default_entry = ''arch.conf'',
                 bc_timeout = 0, bc_entries = []\<rparr> = Inl ValueError"
    by (simp add: loader_conf_line_def strip_def is_space_def startswith_def split_ws_def
        py_nth_def py_int_def int_strip_def int_space_def int_digits_def max_str_digits_def
        is_digit_def nl_def)
  have l: "concat (map (\<lambda>l. projr (parse_installed_line (Some ''apt'') l)) (split_on nl ?out)) =
             [(''vim'', ''2:9.0'', ''amd64 Vi IMproved'')]"
    by (simp add: parse_installed_line_def strip_def is_space_def startswith_def split_ws_def
        py_nth_def nl_def)
  show ?thesis
    using parsers_total_partial_results [where h = "host_systemd_boot ?c" and content = ?c
        and pre = "[''default arch.conf'' @ [nl]]" and bad = "''timeout menu-force'' @ [nl]"
        and post = "[''editor no'' @ [nl]]" and e = ValueError and manager = "Some ''apt''"
        and raw = ?out and opsys = "os_const (Completed [] [] 0)", OF a1 a2 a3]
      a4 a5 l
    by simp
qed

section \<open>Properties of toggling a repository\<close>

lemma universal_newlines_id: "cr \<notin> set s \<Longrightarrow> universal_newlines s = s"
  by (induction s rule: universal_newlines.induct) auto

lemma universal_newlines_no_cr: "cr \<notin> set (universal_newlines s)"
  by (induction s rule: universal_newlines.induct) (auto simp: nl_def cr_def)

lemma universal_newlines_last:
  "s \<noteq> [] \<Longrightarrow> last s = nl \<or> last s = cr \<Longrightarrow>
   universal_newlines s \<noteq> [] \<and> last (universal_newlines s) = nl"
  by (induction s rule: universal_newlines.induct) (auto split: if_splits)

lemma readlines_acc_line:
  "nl \<notin> set b \<Longrightarrow> readlines_acc w (b @ nl # rest) = (rev w @ b @ [nl]) # readlines_acc [] rest"
  by (induction b arbitrary: w) auto

lemma readlines_acc_concat:
  "nl_lines ls \<Longrightarrow> readlines_acc [] (concat ls) = ls"
proof (induction ls)
  case Nil
  show ?case by simp
next
  case (Cons l ls)
  then have l: "l \<noteq> []" "last l = nl" "nl \<notin> set (butlast l)" and ls: "nl_lines ls"
    by (simp_all add: nl_lines_def)
  have eq: "l = butlast l @ [nl]" using l(1,2) by (metis append_butlast_last_id)
  have "readlines_acc [] (butlast l @ nl # concat ls) =
          (rev [] @ butlast l @ [nl]) # readlines_acc [] (concat ls)"
    using l(3) by (rule readlines_acc_line)
  then have "readlines_acc [] (butlast l @ nl # concat ls) = (butlast l @ [nl]) # ls"
    using Cons.IH [OF ls] by simp
  then have "readlines_acc [] ((butlast l @ [nl]) @ concat ls) = (butlast l @ [nl]) # ls" by simp
  then show ?case using eq by simp
qed

lemma readlines_concat:
  assumes "nl_lines ls"
  shows "readlines (concat ls) = ls"
proof -
  have "cr \<notin> set (concat ls)" using assms by (auto simp: nl_lines_def list_all_iff)
  then show ?thesis
    using assms by (simp add: readlines_def universal_newlines_id readlines_acc_concat)
qed

lemma readlines_acc_nl_lines:
  "nl \<notin> set w \<Longrightarrow> cr \<notin> set w \<Longrightarrow> cr \<notin> set s \<Longrightarrow> (s = [] \<longrightarrow> w = []) \<Longrightarrow>
   (s \<noteq> [] \<longrightarrow> last s = nl) \<Longrightarrow> nl_lines (readlines_acc w s)"
proof (induction s arbitrary: w)
  case Nil
  then show ?case by (simp add: nl_lines_def)
next
  case (Cons c cs)
  show ?case
  proof (cases "c = nl")
    case True
    have "nl_lines (readlines_acc [] cs)"
      using Cons.prems(3,5) by (intro Cons.IH) (auto split: if_splits)
    then show ?thesis using True Cons.prems(1,2)
      by (simp add: nl_lines_def butlast_append nl_def cr_def)
  next
    case False
    then have "cs \<noteq> []" "last cs = nl" using Cons.prems(5) by (auto split: if_splits)
    then have "nl_lines (readlines_acc (c # w) cs)"
      using False Cons.prems(1,2,3) by (intro Cons.IH) auto
    then show ?thesis using False by simp
  qed
qed

lemma readlines_nl_lines:
  assumes "c = [] \<or> last c = nl \<or> last c = cr"
  shows "nl_lines (readlines c)"
  unfolding readlines_def
proof (rule readlines_acc_nl_lines)
  show "cr \<notin> set (universal_newlines c)" by (rule universal_newlines_no_cr)
  show "universal_newlines c \<noteq> [] \<longrightarrow> last (universal_newlines c) = nl"
  proof
    assume ne: "universal_newlines c \<noteq> []"
    then have "c \<noteq> []" by auto
    then show "last (universal_newlines c) = nl"
      using assms universal_newlines_last [of c] by blast
  qed
qed simp_all

lemma toggle_line_untoggled:
  "\<not> snd (toggle_line name enable l) \<Longrightarrow> fst (toggle_line name enable l) = l"
  by (auto simp: toggle_line_def split: if_splits)

lemma toggle_line_blank: "toggle_line name enable [nl] = ([nl], False)"
  by (simp add: toggle_line_def startswith_def nl_def)

lemma toggle_line_shape:
  assumes "l \<noteq> [] \<and> last l = nl \<and> nl \<notin> set (butlast l)"
  shows "fst (toggle_line name enable l) \<noteq> [] \<and> last (fst (toggle_line name enable l)) = nl \<and>
         nl \<notin> set (butlast (fst (toggle_line name enable l)))"
proof (cases "snd (toggle_line name enable l)")
  case False
  then show ?thesis using assms toggle_line_untoggled by simp
next
  case True
  show ?thesis
  proof (cases "enable \<and> startswith l ''#deb ''")
    case en: True
    then have f: "fst (toggle_line name enable l) = tl l"
      using True by (simp add: toggle_line_def drop_Suc split: if_splits)
    obtain c d r where l: "l = c # d # r"
      using en by (cases l; cases "tl l") (auto simp: startswith_def)
    show ?thesis using assms f l by (auto split: if_splits)
  next
    case dis: False
    then have f: "fst (toggle_line name enable l) = CHR ''#'' # l"
      using True by (simp add: toggle_line_def split: if_splits)
    show ?thesis using assms by (simp add: f nl_def)
  qed
qed

lemma toggle_line_chars:
  "set (fst (toggle_line name enable l)) \<subseteq> insert CHR ''#'' (set l)"
  by (auto simp: toggle_line_def dest: in_set_dropD split: if_splits)

lemma toggle_lines_nl_lines:
  assumes "nl_lines ls"
  shows "nl_lines (map (\<lambda>l. fst (toggle_line name enable l)) ls)"
proof -
  have "fst (toggle_line name enable l) \<noteq> [] \<and> last (fst (toggle_line name enable l)) = nl \<and>
        nl \<notin> set (butlast (fst (toggle_line name enable l))) \<and>
        cr \<notin> set (fst (toggle_line name enable l))"
    if l: "l \<noteq> [] \<and> last l = nl \<and> nl \<notin> set (butlast l) \<and> cr \<notin> set l" for l
  proof -
    have "cr \<notin> insert CHR ''#'' (set l)" using l by (simp add: cr_def)
    then have "cr \<notin> set (fst (toggle_line name enable l))"
      using toggle_line_chars [of name enable l] by blast
    then show ?thesis using toggle_line_shape [of l name enable] l by simp
  qed
  then show ?thesis using assms unfolding nl_lines_def list_all_iff by auto
qed

lemma nl_lines_blanks: "nl_lines ls \<Longrightarrow> nl_lines (ls @ replicate k [nl])"
  by (auto simp: nl_lines_def list_all_iff nl_def cr_def)

lemma toggle_lines_blanks:
  "fst (toggle_lines name enable (ls @ replicate k [nl])) =
     map (\<lambda>l. fst (toggle_line name enable l)) ls @ replicate k [nl]"
  by (simp add: toggle_lines_def toggle_line_blank)

lemma toggle_lines_untoggled:
  "\<not> snd (toggle_lines name enable ls) \<Longrightarrow> fst (toggle_lines name enable ls) = ls"
  by (simp add: toggle_lines_def list_ex_iff toggle_line_untoggled map_idI)

text \<open>The lines of the sources file after one toggle that the shell carried out.\<close>

lemma rewritten_lines:
  assumes "nl_lines base" and "readlines c = base @ replicate k [nl]"
  shows "\<exists>k'. readlines (if snd (toggle_lines name enable (readlines c))
                       then rewritten name enable c @ [nl] else c) =
              map (\<lambda>l. fst (toggle_line name enable l)) base @ replicate k' [nl]"
proof (cases "snd (toggle_lines name enable (readlines c))")
  case True
  let ?ls = "map (\<lambda>l. fst (toggle_line name enable l)) base"
  have "rewritten name enable c @ [nl] = concat (?ls @ replicate (Suc k) [nl])"
    by (simp add: rewritten_def assms(2) toggle_lines_blanks replicate_append_same)
  moreover have "nl_lines (?ls @ replicate (Suc k) [nl])"
    using assms(1) by (intro nl_lines_blanks toggle_lines_nl_lines)
  ultimately have "readlines (rewritten name enable c @ [nl]) = ?ls @ replicate (Suc k) [nl]"
    using readlines_concat by metis
  then show ?thesis using True by (intro exI [of _ "Suc k"]) simp
next
  case False
  have "fst (toggle_lines name enable (readlines c)) = readlines c"
    using False by (rule toggle_lines_untoggled)
  then have "map (\<lambda>l. fst (toggle_line name enable l)) base @ replicate k [nl] =
               base @ replicate k [nl]"
    by (simp add: assms(2) toggle_lines_blanks)
  then show ?thesis using False assms(2) by (intro exI [of _ k]) simp
qed

lemma toggle_apt_single_file:
  assumes "glob h ''/etc/apt/sources.list.d/*.list'' = []"
    and "files h ''/etc/apt/sources.list'' = Some c"
  shows "snd (toggle_repository opsys (Some ''apt'') name enable pw h) =
     (if snd (toggle_lines name enable (readlines c)) then
        (if snd (snd (fst (run_sudo_command opsys
                 (echo_to (rewritten name enable c) ''/etc/apt/sources.list'') pw h))) = 0
         then snd (run_sudo_command opsys ''apt update'' pw
                (snd (run_sudo_command opsys
                   (echo_to (rewritten name enable c) ''/etc/apt/sources.list'') pw h)))
         else snd (run_sudo_command opsys
                 (echo_to (rewritten name enable c) ''/etc/apt/sources.list'') pw h))
      else h)"
proof -
  have ex: "path_exists h ''/etc/apt/sources.list''"
    using assms(2) by (simp add: path_exists_def)
  have "toggle_repository opsys (Some ''apt'') name enable pw h =
          toggle_apt_files opsys name enable pw [''/etc/apt/sources.list''] h"
    by (simp only: toggle_repository_def sources_files_def assms(1) if_True refl)
  then show ?thesis
    unfolding rewritten_def
    by (simp only: toggle_apt_files.simps ex assms(2) if_True option.case Let_def split_beta
        fst_conv snd_conv if_distrib [of snd] cong: if_cong)
qed

lemma toggle_apt_effect:
  assumes es: "echo_stores opsys pw ''/etc/apt/sources.list'' (rewritten name enable c)"
    and uk: "update_keeps opsys pw ''/etc/apt/sources.list''"
    and g: "glob h ''/etc/apt/sources.list.d/*.list'' = []"
    and f: "files h ''/etc/apt/sources.list'' = Some c"
  shows "files (snd (toggle_repository opsys (Some ''apt'') name enable pw h))
           ''/etc/apt/sources.list'' =
         Some (if snd (toggle_lines name enable (readlines c))
               then rewritten name enable c @ [nl] else c) \<and>
         glob (snd (toggle_repository opsys (Some ''apt'') name enable pw h))
           ''/etc/apt/sources.list.d/*.list'' = []"
proof (cases "snd (toggle_lines name enable (readlines c))")
  case False
  then show ?thesis using g f by (simp add: toggle_apt_single_file [OF g f])
next
  case True
  define wr where "wr = rewritten name enable c"
  define call1 where "call1 = sudo_call (echo_to wr ''/etc/apt/sources.list'') pw"
  define call2 where "call2 = sudo_call ''apt update'' pw"
  define h1 where "h1 = host_after opsys call1 h"
  have fh: "files h ''/etc/apt/sources.list'' \<noteq> None" using f by simp
  obtain out err where o1: "fst (opsys call1 h) = Completed out err 0"
    and f1: "files (snd (opsys call1 h)) ''/etc/apt/sources.list'' = Some (wr @ [nl])"
    and g1: "glob (snd (opsys call1 h)) ''/etc/apt/sources.list.d/*.list'' =
             glob h ''/etc/apt/sources.list.d/*.list''"
    using es fh unfolding echo_stores_def call1_def wr_def by blast
  have c1: "snd (snd (fst (run_sudo_command opsys (echo_to wr ''/etc/apt/sources.list'') pw h))) = 0"
    using o1 by (simp add: run_sudo_command_eq call1_def [symmetric] reported_code_def)
  have s1: "snd (run_sudo_command opsys (echo_to wr ''/etc/apt/sources.list'') pw h) = h1"
    by (simp add: run_sudo_command_eq call1_def [symmetric] h1_def)
  have fh1: "files h1 ''/etc/apt/sources.list'' = Some (wr @ [nl])"
    "glob h1 ''/etc/apt/sources.list.d/*.list'' = []"
    using f1 g1 g by (simp_all add: h1_def host_after_def)
  have s2: "snd (run_sudo_command opsys ''apt update'' pw h1) = host_after opsys call2 h1"
    by (simp add: run_sudo_command_eq call2_def)
  have fh2: "files (host_after opsys call2 h1) ''/etc/apt/sources.list'' =
               files h1 ''/etc/apt/sources.list''"
    "glob (host_after opsys call2 h1) ''/etc/apt/sources.list.d/*.list'' =
       glob h1 ''/etc/apt/sources.list.d/*.list''"
    using uk unfolding update_keeps_def call2_def by (simp_all add: host_after_def)
  have "snd (toggle_repository opsys (Some ''apt'') name enable pw h) = host_after opsys call2 h1"
    using True c1 s1 s2
    by (simp only: toggle_apt_single_file [OF g f] wr_def [symmetric] if_True simp_thms)
  then show ?thesis
    using True fh1 fh2 by (simp add: wr_def)
qed

lemma get_repositories_apt_single:
  assumes "glob h ''/etc/apt/sources.list.d/*.list'' = []"
    and "files h ''/etc/apt/sources.list'' = Some c"
  shows "fst (get_repositories opsys (Some ''apt'') h) =
           Inr (concat (map (\<lambda>(n, raw). apt_repo_line ''/etc/apt/sources.list'' n raw)
                            (enumerate 1 (readlines c))))"
  using assms by (simp add: get_repositories_def sources_files_def apt_file_repos_def)

lemma apt_repo_line_blank: "apt_repo_line f n [nl] = []"
  by (simp add: apt_repo_line_def strip_def is_space_def nl_def)

lemma entries_blank_lines:
  "concat (map (\<lambda>(n, raw). apt_repo_line f n raw) (enumerate m (replicate k [nl]))) = []"
  by (induction k arbitrary: m) (simp_all add: apt_repo_line_blank)

lemma entries_blanks:
  "concat (map (\<lambda>(n, raw). apt_repo_line f n raw) (enumerate m (ls @ replicate k [nl]))) =
   concat (map (\<lambda>(n, raw). apt_repo_line f n raw) (enumerate m ls))"
  by (simp add: enumerate_append_eq entries_blank_lines)

lemma entries_map:
  "concat (map (\<lambda>(n, raw). apt_repo_line f n raw) (enumerate m (map g ls))) =
   concat (map (\<lambda>(n, raw). apt_repo_line f n (g raw)) (enumerate m ls))"
  by (induction ls arbitrary: m) simp_all

lemma strip_keeps_first:
  assumes "\<not> is_space c"
  shows "\<exists>r. strip (c # l) = c # r"
proof -
  have "\<exists>zs. dropWhile is_space (rev l @ [c]) = zs @ [c]"
  proof (cases "\<exists>x \<in> set (rev l). \<not> is_space x")
    case True
    then have "dropWhile is_space (rev l @ [c]) = dropWhile is_space (rev l) @ [c]"
      by (metis dropWhile_append1)
    then show ?thesis by blast
  next
    case False
    then have "dropWhile is_space (rev l @ [c]) = dropWhile is_space [c]"
      by (intro dropWhile_append2) auto
    then have "dropWhile is_space (rev l @ [c]) = [] @ [c]" using assms by simp
    then show ?thesis by blast
  qed
  then obtain zs where "dropWhile is_space (rev l @ [c]) = zs @ [c]" by blast
  then show ?thesis using assms by (simp add: strip_def)
qed

lemma apt_repo_line_comment: "apt_repo_line f n (CHR ''#'' # l) = []"
proof -
  have "\<not> is_space CHR ''#''" by (simp add: is_space_def)
  then obtain r where "strip (CHR ''#'' # l) = CHR ''#'' # r"
    using strip_keeps_first by blast
  then show ?thesis by (simp add: apt_repo_line_def startswith_def)
qed

lemma str_in_Nil: "str_in [] s"
  by (cases s) (simp_all add: startswith_def)

lemma str_in_tl:
  assumes "str_in name (CHR ''#'' # t)" and "\<not> startswith name ''#''"
  shows "str_in name t"
proof (cases "name = []")
  case True
  then show ?thesis by (simp add: str_in_Nil)
next
  case False
  then obtain a r where n: "name = a # r" by (cases name) auto
  have "a \<noteq> CHR ''#''" using assms(2) n by (simp add: startswith_def)
  then have "\<not> startswith (CHR ''#'' # t) name" using n by (auto simp: startswith_def)
  then show ?thesis using assms(1) by simp
qed

lemma toggle_twice_text:
  assumes "\<not> startswith name ''#''"
  shows "fst (toggle_line name False (fst (toggle_line name True l))) =
           (if str_in name l \<and> startswith l ''deb '' then CHR ''#'' # l else l)"
proof (cases "str_in name l")
  case False
  then show ?thesis by (simp add: toggle_line_def)
next
  case True
  consider (dis) "startswith l ''#deb ''" | (en) "startswith l ''deb ''"
    | (none) "\<not> startswith l ''#deb ''" "\<not> startswith l ''deb ''" by blast
  then show ?thesis
  proof cases
    case dis
    then obtain t where l: "l = CHR ''#'' # t" and t: "startswith t ''deb ''"
      by (cases l) (auto simp: startswith_def)
    have "str_in name t" using True assms l str_in_tl by blast
    then have "fst (toggle_line name False (fst (toggle_line name True l))) = l"
      using True dis t l by (simp add: toggle_line_def)
    moreover have "\<not> startswith l ''deb ''" using l by (simp add: startswith_def)
    ultimately show ?thesis by simp
  next
    case en
    then have "\<not> startswith l ''#deb ''" by (cases l) (auto simp: startswith_def)
    then show ?thesis using True en by (simp add: toggle_line_def)
  next
    case none
    then show ?thesis using True by (simp add: toggle_line_def)
  qed
qed

lemma toggle_twice_file:
  assumes e1: "echo_stores opsys pw ''/etc/apt/sources.list'' (rewritten name True content)"
    and e2: "echo_stores opsys pw ''/etc/apt/sources.list'' (rewritten name False content)"
    and e3: "echo_stores opsys pw ''/etc/apt/sources.list''
               (rewritten name False (rewritten name True content @ [nl]))"
    and uk: "update_keeps opsys pw ''/etc/apt/sources.list''"
    and g: "glob h ''/etc/apt/sources.list.d/*.list'' = []"
    and f: "files h ''/etc/apt/sources.list'' = Some content"
    and e: "content = [] \<or> last content = nl \<or> last content = cr"
    and nh: "\<not> startswith name ''#''"
  shows "\<exists>c2 k.
           files (snd (toggle_repository opsys (Some ''apt'') name False pw
                    (snd (toggle_repository opsys (Some ''apt'') name True pw h))))
             ''/etc/apt/sources.list'' = Some c2 \<and>
           glob (snd (toggle_repository opsys (Some ''apt'') name False pw
                    (snd (toggle_repository opsys (Some ''apt'') name True pw h))))
             ''/etc/apt/sources.list.d/*.list'' = [] \<and>
           readlines c2 =
             map (\<lambda>l. if str_in name l \<and> startswith l ''deb '' then CHR ''#'' # l else l)
                 (readlines content) @ replicate k [nl]"
proof -
  let ?S = "''/etc/apt/sources.list''"
  let ?t1 = "\<lambda>l. fst (toggle_line name True l)"
  let ?t2 = "\<lambda>l. fst (toggle_line name False l)"
  define c1 where "c1 = (if snd (toggle_lines name True (readlines content))
                         then rewritten name True content @ [nl] else content)"
  define c2 where "c2 = (if snd (toggle_lines name False (readlines c1))
                         then rewritten name False c1 @ [nl] else c1)"
  define h2 where "h2 = snd (toggle_repository opsys (Some ''apt'') name True pw h)"
  define h4 where "h4 = snd (toggle_repository opsys (Some ''apt'') name False pw h2)"
  have ok0: "nl_lines (readlines content)" using e by (rule readlines_nl_lines)
  have f2: "files h2 ?S = Some c1" and g2: "glob h2 ''/etc/apt/sources.list.d/*.list'' = []"
    using toggle_apt_effect [OF e1 uk g f] by (simp_all add: h2_def c1_def)
  have e': "echo_stores opsys pw ?S (rewritten name False c1)"
    using e2 e3 by (simp add: c1_def)
  have f4: "files h4 ?S = Some c2" and g4: "glob h4 ''/etc/apt/sources.list.d/*.list'' = []"
    using toggle_apt_effect [OF e' uk g2 f2] by (simp_all add: h4_def c2_def)
  have "readlines content = readlines content @ replicate 0 [nl]" by simp
  with ok0 obtain k1 where
    r1: "readlines c1 = map ?t1 (readlines content) @ replicate k1 [nl]"
    unfolding c1_def using rewritten_lines by blast
  have ok1: "nl_lines (map ?t1 (readlines content))"
    using ok0 by (rule toggle_lines_nl_lines)
  obtain k2 where
    r2: "readlines c2 = map ?t2 (map ?t1 (readlines content)) @ replicate k2 [nl]"
    unfolding c2_def using rewritten_lines [OF ok1 r1] by blast
  have "readlines c2 =
          map (\<lambda>l. if str_in name l \<and> startswith l ''deb '' then CHR ''#'' # l else l)
              (readlines content) @ replicate k2 [nl]"
    by (simp only: r2 map_map comp_def toggle_twice_text [OF nh])
  then show ?thesis using f4 g4 unfolding h4_def h2_def by blast
qed

lemma apt_repo_line_toggled:
  "apt_repo_line f n (if str_in name raw \<and> startswith raw ''deb '' then CHR ''#'' # raw else raw) =
     (if str_in name raw \<and> startswith raw ''deb '' then [] else apt_repo_line f n raw)"
  by (simp add: apt_repo_line_comment)

lemma toggle_twice_listing:
  assumes e1: "echo_stores opsys pw ''/etc/apt/sources.list'' (rewritten name True content)"
    and e2: "echo_stores opsys pw ''/etc/apt/sources.list'' (rewritten name False content)"
    and e3: "echo_stores opsys pw ''/etc/apt/sources.list''
               (rewritten name False (rewritten name True content @ [nl]))"
    and uk: "update_keeps opsys pw ''/etc/apt/sources.list''"
    and g: "glob h ''/etc/apt/sources.list.d/*.list'' = []"
    and f: "files h ''/etc/apt/sources.list'' = Some content"
    and e: "content = [] \<or> last content = nl \<or> last content = cr"
    and nh: "\<not> startswith name ''#''"
  shows "fst (get_repositories opsys (Some ''apt'')
            (snd (toggle_repository opsys (Some ''apt'') name False pw
               (snd (toggle_repository opsys (Some ''apt'') name True pw h))))) =
         Inr (concat (map (\<lambda>(n, raw). if str_in name raw \<and> startswith raw ''deb '' then []
                                     else apt_repo_line ''/etc/apt/sources.list'' n raw)
                          (enumerate 1 (readlines content))))"
proof -
  let ?S = "''/etc/apt/sources.list''"
  let ?h4 = "snd (toggle_repository opsys (Some ''apt'') name False pw
               (snd (toggle_repository opsys (Some ''apt'') name True pw h)))"
  obtain c2 k where f4: "files ?h4 ?S = Some c2"
    and g4: "glob ?h4 ''/etc/apt/sources.list.d/*.list'' = []"
    and r2: "readlines c2 =
             map (\<lambda>l. if str_in name l \<and> startswith l ''deb '' then CHR ''#'' # l else l)
                 (readlines content) @ replicate k [nl]"
    using toggle_twice_file [OF assms] by blast
  have "fst (get_repositories opsys (Some ''apt'') ?h4) =
          Inr (concat (map (\<lambda>(n, raw). apt_repo_line ?S n raw) (enumerate 1 (readlines c2))))"
    using g4 f4 by (rule get_repositories_apt_single)
  also have "concat (map (\<lambda>(n, raw). apt_repo_line ?S n raw) (enumerate 1 (readlines c2))) =
       concat (map (\<lambda>(n, raw). if str_in name raw \<and> startswith raw ''deb '' then []
                                     else apt_repo_line ?S n raw)
                   (enumerate 1 (readlines content)))"
    by (simp only: r2 entries_blanks entries_map apt_repo_line_toggled)
  finally show ?thesis .
qed

lemma os_root_writer_echo:
  "os_root_writer path
     \<lparr>sc_cmd = (''sudo echo '' @ [sq]) @ t @ ([sq] @ '' > '' @ path), sc_shell = b,
      sc_timeout = n\<rparr> h =
   (Completed [] [] 0, h\<lparr>files := (files h)(path \<mapsto> t @ [nl])\<rparr>)"
proof -
  define pre where "pre = ''sudo echo '' @ [sq]"
  define suf where "suf = [sq] @ '' > '' @ path"
  have m: "startswith (pre @ t @ suf) pre" "endswith (pre @ t @ suf) suf"
    "length pre + length suf \<le> length (pre @ t @ suf)"
    "take (length (pre @ t @ suf) - length pre - length suf) (drop (length pre) (pre @ t @ suf)) = t"
    by (simp_all add: startswith_def endswith_def)
  have "os_root_writer path \<lparr>sc_cmd = pre @ t @ suf, sc_shell = b, sc_timeout = n\<rparr> h =
          (Completed [] [] 0, h\<lparr>files := (files h)(path \<mapsto> t @ [nl])\<rparr>)"
    unfolding os_root_writer_def Let_def
    unfolding pre_def [symmetric] suf_def [symmetric]
    using m by simp
  then show ?thesis unfolding pre_def suf_def .
qed

lemma os_root_writer_other:
  "\<not> startswith (sc_cmd call) (''sudo echo '' @ [sq]) \<Longrightarrow>
   os_root_writer path call h = (Completed [] [] 0, h)"
  by (simp add: os_root_writer_def Let_def)

lemma echo_stores_writer: "echo_stores (os_root_writer path) None path t"
proof -
  have "os_root_writer path (sudo_call (echo_to t path) None) h =
           (Completed [] [] 0, h\<lparr>files := (files h)(path \<mapsto> t @ [nl])\<rparr>)" for h
    using os_root_writer_echo [of path t True 30 h]
    by (simp add: sudo_call_def sudo_cmd_def echo_to_def)
  then show ?thesis by (simp add: echo_stores_def)
qed

lemma update_keeps_writer: "update_keeps (os_root_writer path) None path"
proof -
  have "os_root_writer path (sudo_call ''apt update'' None) h = (Completed [] [] 0, h)" for h
    by (rule os_root_writer_other) (simp add: sudo_call_def sudo_cmd_def startswith_def)
  then show ?thesis by (simp add: update_keeps_def)
qed

lemmas listing_eval = readlines_def nl_def cr_def sq_def startswith_def apt_repo_line_def strip_def
  is_space_def replace.simps

text \<open>
  Claim C8, as stated, fails: on a Debian host whose sources file lists one enabled
  repository, \<^verbatim>\<open>toggle_repository\<close> with \<^verbatim>\<open>enable=True\<close> and then with \<^verbatim>\<open>enable=False\<close>,
  given the name that \<^verbatim>\<open>get_repositories\<close> listed, leaves the repository commented out,
  and the next listing no longer holds it.
\<close>

theorem toggle_roundtrip_counterexample:
  "fst (get_repositories (os_root_writer ''/etc/apt/sources.list'') (Some ''apt'')
          (host_apt (''deb http://deb.debian.org/debian stable main'' @ [nl]))) =
     Inr [\<lparr>r_file = Some ''/etc/apt/sources.list'', r_line = Some 1,
           r_name = ''deb http://deb.debian.org/debian stable main'', r_enabled = True,
           r_type = ''apt''\<rparr>] \<and>
   fst (get_repositories (os_root_writer ''/etc/apt/sources.list'') (Some ''apt'')
          (snd (toggle_repository (os_root_writer ''/etc/apt/sources.list'') (Some ''apt'')
                  ''deb http://deb.debian.org/debian stable main'' False None
             (snd (toggle_repository (os_root_writer ''/etc/apt/sources.list'') (Some ''apt'')
                     ''deb http://deb.debian.org/debian stable main'' True None
                (host_apt (''deb http://deb.debian.org/debian stable main'' @ [nl]))))))) =
     Inr []"
proof -
  let ?c = "''deb http://deb.debian.org/debian stable main'' @ [nl]"
  have g: "glob (host_apt ?c) ''/etc/apt/sources.list.d/*.list'' = []"
    by (simp add: host_apt_def host_empty_def)
  have f: "files (host_apt ?c) ''/etc/apt/sources.list'' = Some ?c"
    by (simp add: host_apt_def)
  have e: "?c = [] \<or> last ?c = nl \<or> last ?c = cr" by simp
  have nh: "\<not> startswith ''deb http://deb.debian.org/debian stable main'' ''#''"
    by (simp add: startswith_def)
  have before: "concat (map (\<lambda>(n, raw). apt_repo_line ''/etc/apt/sources.list'' n raw)
                            (enumerate 1 (readlines ?c))) =
      [\<lparr>r_file = Some ''/etc/apt/sources.list'', r_line = Some 1,
           r_name = ''deb http://deb.debian.org/debian stable main'', r_enabled = True,
           r_type = ''apt''\<rparr>]"
    by (simp add: listing_eval)
  have after: "concat (map (\<lambda>(n, raw).
                  if str_in ''deb http://deb.debian.org/debian stable main'' raw \<and>
                     startswith raw ''deb '' then []
                  else apt_repo_line ''/etc/apt/sources.list'' n raw)
                          (enumerate 1 (readlines ?c))) = []"
    by (simp add: listing_eval)
  show ?thesis
    using get_repositories_apt_single [OF g f, of "os_root_writer ''/etc/apt/sources.list''"]
      toggle_twice_listing [OF echo_stores_writer echo_stores_writer echo_stores_writer
        update_keeps_writer g f e nh]
    by (simp only: before after simp_thms)
qed

text \<open>
  Claim C8, amended. \<^verbatim>\<open>toggle_repository\<close> sets the state it is given; it works on the
  lines of the sources file, not on the listing. On an apt host whose only sources file is
  \<^verbatim>\<open>/etc/apt/sources.list\<close>, a text that ends with a line end, and for a name that does
  not begin with \<^verbatim>\<open>#\<close>: if the \<^verbatim>\<open>echo\<close> commands of the two calls store the texts they
  are given and \<^verbatim>\<open>apt update\<close> leaves the file alone, then after \<^verbatim>\<open>toggle_repository\<close>
  with \<^verbatim>\<open>enable=True\<close> followed by \<^verbatim>\<open>enable=False\<close> every line of the file that
  contains the name and began with \<^verbatim>\<open>deb \<close> is commented out (\<^verbatim>\<open>#deb ...\<close>), and every
  other line is as it was read, apart from empty lines added at the end of the file. So a
  line that began with \<^verbatim>\<open>#deb \<close> has its original text, and a line that does not begin
  with \<^verbatim>\<open>deb \<close> (an indented one) or does not contain the name as it was given is not
  changed by the two calls.
\<close>

theorem toggle_twice_leaves_disabled:
  assumes "echo_stores opsys pw ''/etc/apt/sources.list'' (rewritten name True content)"
    and "echo_stores opsys pw ''/etc/apt/sources.list'' (rewritten name False content)"
    and "echo_stores opsys pw ''/etc/apt/sources.list''
           (rewritten name False (rewritten name True content @ [nl]))"
    and "update_keeps opsys pw ''/etc/apt/sources.list''"
    and "glob h ''/etc/apt/sources.list.d/*.list'' = []"
    and "files h ''/etc/apt/sources.list'' = Some content"
    and "content = [] \<or> last content = nl \<or> last content = cr"
    and "\<not> startswith name ''#''"
  shows "\<exists>c2 k.
           files (snd (toggle_repository opsys (Some ''apt'') name False pw
                    (snd (toggle_repository opsys (Some ''apt'') name True pw h))))
             ''/etc/apt/sources.list'' = Some c2 \<and>
           readlines c2 =
             map (\<lambda>l. if str_in name l \<and> startswith l ''deb '' then CHR ''#'' # l else l)
                 (readlines content) @ replicate k [nl]"
  using toggle_twice_file [OF assms] by blast

theorem toggle_twice_leaves_disabled_witness:
  "update_keeps (os_root_writer ''/etc/apt/sources.list'') None ''/etc/apt/sources.list'' \<and>
   echo_stores (os_root_writer ''/etc/apt/sources.list'') None ''/etc/apt/sources.list''
     (rewritten ''http://example.org/'' True
        (''deb http://deb.debian.org/debian stable main'' @ [cr, nl]
         @ ''#deb http://example.org/extra stable main'' @ [nl]
         @ '' deb http://example.org/indented stable main'' @ [nl]
         @ ''deb http://example.org/more stable main'' @ [nl])) \<and>
   last (''deb http://deb.debian.org/debian stable main'' @ [cr, nl]
         @ ''#deb http://example.org/extra stable main'' @ [nl]
         @ '' deb http://example.org/indented stable main'' @ [nl]
         @ ''deb http://example.org/more stable main'' @ [nl]) = nl \<and>
   (\<exists>c2 k.
      files (snd (toggle_repository (os_root_writer ''/etc/apt/sources.list'') (Some ''apt'')
                  ''http://example.org/'' False None
             (snd (toggle_repository (os_root_writer ''/etc/apt/sources.list'') (Some ''apt'')
                     ''http://example.org/'' True None
                (host_apt (''deb http://deb.debian.org/debian stable main'' @ [cr, nl]
                           @ ''#deb http://example.org/extra stable main'' @ [nl]
                           @ '' deb http://example.org/indented stable main'' @ [nl]
                           @ ''deb http://example.org/more stable main'' @ [nl]))))))
        ''/etc/apt/sources.list'' = Some c2 \<and>
      readlines c2 =
        [''deb http://deb.debian.org/debian stable main'' @ [nl],
         ''#deb http://example.org/extra stable main'' @ [nl],
         '' deb http://example.org/indented stable main'' @ [nl],
         ''#deb http://example.org/more stable main'' @ [nl]] @ replicate k [nl])"
proof -
  let ?c = "''deb http://deb.debian.org/debian stable main'' @ [cr, nl]
            @ ''#deb http://example.org/extra stable main'' @ [nl]
            @ '' deb http://example.org/indented stable main'' @ [nl]
            @ ''deb http://example.org/more stable main'' @ [nl]"
  have g: "glob (host_apt ?c) ''/etc/apt/sources.list.d/*.list'' = []"
    by (simp add: host_apt_def host_empty_def)
  have f: "files (host_apt ?c) ''/etc/apt/sources.list'' = Some ?c"
    by (simp add: host_apt_def)
  have l: "last ?c = nl" by simp
  then have e: "?c = [] \<or> last ?c = nl \<or> last ?c = cr" by blast
  have nh: "\<not> startswith ''http://example.org/'' ''#''"
    by (simp add: startswith_def)
  have after: "map (\<lambda>l. if str_in ''http://example.org/'' l \<and> startswith l ''deb ''
                        then CHR ''#'' # l else l) (readlines ?c) =
      [''deb http://deb.debian.org/debian stable main'' @ [nl],
       ''#deb http://example.org/extra stable main'' @ [nl],
       '' deb http://example.org/indented stable main'' @ [nl],
       ''#deb http://example.org/more stable main'' @ [nl]]"
    by (simp add: listing_eval)
  show ?thesis
    using toggle_twice_leaves_disabled [OF echo_stores_writer echo_stores_writer
        echo_stores_writer update_keeps_writer g f e nh] l
      update_keeps_writer [of "''/etc/apt/sources.list''"]
      echo_stores_writer [of "''/etc/apt/sources.list''"
        "rewritten ''http://example.org/'' True ?c"]
    by (simp only: after simp_thms)
qed

end
